theory Spec2Isabelle
  imports Complex_Main
begin

section \<open>Bangalore Traffic Sentinel: the estimation core of backend/server.py\<close>

text \<open>
  Conventions of the embedding.
  \<^item> A Python \<open>float\<close> is an IEEE double, given by the \<^typ>\<open>real\<close> it denotes. Every
    operation on floats computes the exact result and rounds it to the nearest double,
    ties going to the even significand (\<open>double\<close>). The exponent is not bounded: overflow,
    underflow, infinities and NaN are left out, the magnitudes of this program lying between
    \<open>2 ^ -60\<close> and \<open>2 ^ 14\<close>. A float literal is the double nearest to the decimal written.
  \<^item> A Python \<open>int\<close> is an \<^typ>\<open>int\<close>, a \<open>str\<close> is a \<^typ>\<open>string\<close> (place and day
    names are taken to be ASCII).
  \<^item> The process-wide generator behind \<open>random.random()\<close> is an explicit stream of
    draws \<open>nat \<Rightarrow> real\<close>; a call returns the head and the rest of the stream.
  \<^item> A raised exception is the left summand of a result.
\<close>

subsection \<open>Floats\<close>

text \<open>Rounding a real to the nearest integer, ties to the even one.\<close>

definition round_half_even :: "real \<Rightarrow> int" where
  "round_half_even x =
     (let f = \<lfloor>x\<rfloor>; r = x - of_int f
      in if r < 1 / 2 then f
         else if 1 / 2 < r then f + 1
         else if even f then f else f + 1)"

text \<open>
  The binary exponent \<open>e\<close> of a real \<open>x \<noteq> 0\<close>, with \<open>2 ^ e \<le> \<bar>x\<bar> < 2 ^ (e + 1)\<close>, found by halving
  or doubling.
\<close>

function exponent_up :: "real \<Rightarrow> int \<Rightarrow> int" where
  "exponent_up x e = (if x < 2 then e else exponent_up (x / 2) (e + 1))"
  by pat_completeness auto
termination
proof (relation "measure (\<lambda>(x, e). nat \<lceil>x\<rceil>)")
  show "wf (measure (\<lambda>(x, e). nat \<lceil>x\<rceil>))" by simp
next
  fix x :: real and e :: int
  assume "\<not> x < 2"
  then have "x / 2 \<le> x - 1" by simp
  then have "\<lceil>x / 2\<rceil> \<le> \<lceil>x - 1\<rceil>" by (rule ceiling_mono)
  moreover have "0 < \<lceil>x\<rceil>" using \<open>\<not> x < 2\<close> by (simp add: less_ceiling_iff)
  ultimately show "((x / 2, e + 1), (x, e)) \<in> measure (\<lambda>(x, e). nat \<lceil>x\<rceil>)"
    by simp
qed

function exponent_down :: "real \<Rightarrow> int \<Rightarrow> int" where
  "exponent_down x e = (if x \<le> 0 \<or> 1 \<le> x then e else exponent_down (2 * x) (e - 1))"
  by pat_completeness auto
termination
proof (relation "measure (\<lambda>(x, e). nat \<lceil>1 / x\<rceil>)")
  show "wf (measure (\<lambda>(x, e). nat \<lceil>1 / x\<rceil>))" by simp
next
  fix x :: real and e :: int
  assume "\<not> (x \<le> 0 \<or> 1 \<le> x)"
  then have x: "0 < x" "x < 1" by simp_all
  then have y: "1 < 1 / x" by simp
  have "\<lceil>1 / (2 * x)\<rceil> < \<lceil>1 / x\<rceil>"
  proof (cases "1 / x \<le> 2")
    case True
    then have "1 / (2 * x) \<le> 1" by simp
    then have "\<lceil>1 / (2 * x)\<rceil> \<le> 1" by (simp add: ceiling_le_iff)
    moreover have "1 < \<lceil>1 / x\<rceil>" using y by (simp add: less_ceiling_iff)
    ultimately show ?thesis by linarith
  next
    case False
    then have "1 / (2 * x) \<le> 1 / x - 1" by simp
    then have "\<lceil>1 / (2 * x)\<rceil> \<le> \<lceil>1 / x - 1\<rceil>" by (rule ceiling_mono)
    then show ?thesis by simp
  qed
  moreover have "0 < \<lceil>1 / x\<rceil>" using x by (simp add: less_ceiling_iff)
  ultimately show "((2 * x, e - 1), (x, e)) \<in> measure (\<lambda>(x, e). nat \<lceil>1 / x\<rceil>)"
    by simp
qed

declare exponent_up.simps [simp del] exponent_down.simps [simp del]

definition binary_exponent :: "real \<Rightarrow> int" where
  "binary_exponent x = (if 1 \<le> \<bar>x\<bar> then exponent_up \<bar>x\<bar> 0 else exponent_down \<bar>x\<bar> 0)"

text \<open>The double nearest to a real: 53 significant bits, ties to even.\<close>

definition double :: "real \<Rightarrow> real" where
  "double x =
     (if x = 0 then 0
      else let q = 2 powi (binary_exponent x - 52)
           in of_int (round_half_even (x / q)) * q)"

text \<open>\<open>a * b\<close>, \<open>a + b\<close> and \<open>a / b\<close> on floats, and the float of an \<open>int\<close>.\<close>

definition fmul :: "real \<Rightarrow> real \<Rightarrow> real" where
  "fmul a b = double (a * b)"

definition fadd :: "real \<Rightarrow> real \<Rightarrow> real" where
  "fadd a b = double (a + b)"

definition fdiv :: "real \<Rightarrow> real \<Rightarrow> real" where
  "fdiv a b = double (a / b)"

definition float_of_int :: "int \<Rightarrow> real" where
  "float_of_int n = double (of_int n)"

subsection \<open>Builtins\<close>

text \<open>
  \<open>round(x, n)\<close> on a float: the exact value of \<open>x\<close> is rounded to \<open>n\<close> decimal places,
  ties to even, and the decimal obtained is converted to the nearest double.
\<close>

definition py_round :: "real \<Rightarrow> nat \<Rightarrow> real" where
  "py_round x ndigits = double (of_int (round_half_even (x * 10 ^ ndigits)) / 10 ^ ndigits)"

text \<open>\<open>d.get(k, default)\<close> on a dictionary given as an association list.\<close>

definition dict_get :: "('k \<times> 'v) list \<Rightarrow> 'k \<Rightarrow> 'v \<Rightarrow> 'v" where
  "dict_get d k dflt = (case map_of d k of None \<Rightarrow> dflt | Some v \<Rightarrow> v)"

text \<open>\<open>random.random()\<close>: the next draw and the advanced generator.\<close>

type_synonym rng = "nat \<Rightarrow> real"

definition random_random :: "rng \<Rightarrow> real \<times> rng" where
  "random_random g = (g 0, \<lambda>n. g (Suc n))"

subsection \<open>Reference data\<close>

definition DAYS_OF_WEEK :: "string list" where
  "DAYS_OF_WEEK =
     [''Monday'', ''Tuesday'', ''Wednesday'', ''Thursday'', ''Friday'', ''Saturday'', ''Sunday'']"

subsection \<open>Signal generator: \<open>predict_traffic_value\<close>\<close>

definition base_traffic :: "(string \<times> int) list" where
  "base_traffic =
     [(''silk_board'', 2500), (''kr_puram'', 2200), (''whitefield'', 1800), (''hebbal'', 2000)]"

definition weekend_factor :: "string \<Rightarrow> real" where
  "weekend_factor day =
     (if day \<in> set [''Saturday'', ''Sunday''] then double 0.6 else double 1.0)"

definition hour_multiplier :: "int \<Rightarrow> real" where
  "hour_multiplier hour =
     (if 8 \<le> hour \<and> hour \<le> 10 then double 1.8
      else if 17 \<le> hour \<and> hour \<le> 20 then double 2.0
      else if 12 \<le> hour \<and> hour \<le> 14 then double 1.3
      else if 0 \<le> hour \<and> hour \<le> 5 then double 0.3
      else if 22 \<le> hour \<and> hour \<le> 23 then double 0.5
      else double 1.0)"

definition day_factor :: "string \<Rightarrow> real" where
  "day_factor day =
     (if day = ''Friday'' then double 1.15
      else if day = ''Monday'' then double 1.1
      else double 1.0)"

text \<open>
  Line 78 of the source: the product before the jitter is applied, three float
  multiplications from left to right, the base converted from \<open>int\<close>.
\<close>

definition traffic_raw :: "string \<Rightarrow> string \<Rightarrow> int \<Rightarrow> real" where
  "traffic_raw place day hour =
     fmul (fmul (fmul (float_of_int (dict_get base_traffic place 1500)) (weekend_factor day))
             (hour_multiplier hour))
       (day_factor day)"

text \<open>The whole function, the value \<open>u\<close> being what \<open>random.random()\<close> returned.\<close>

definition predict_traffic_value :: "string \<Rightarrow> string \<Rightarrow> int \<Rightarrow> real \<Rightarrow> real" where
  "predict_traffic_value place day hour u =
     (let traffic = traffic_raw place day hour;
          traffic = fmul traffic (fadd (double 0.9) (fmul u (double 0.2)))
      in py_round traffic 2)"

subsection \<open>Classifier: \<open>get_traffic_level\<close>\<close>

record level_info =
  level :: string
  level_color :: string
  level_severity :: int

definition get_traffic_level :: "real \<Rightarrow> level_info" where
  "get_traffic_level traffic_value =
     (if traffic_value < 1500
      then \<lparr>level = ''Normal'', level_color = ''#10B981'', level_severity = 1\<rparr>
      else if traffic_value < 2500
      then \<lparr>level = ''Moderate'', level_color = ''#F59E0B'', level_severity = 2\<rparr>
      else \<lparr>level = ''High'', level_color = ''#EF4444'', level_severity = 3\<rparr>)"

subsection \<open>More builtins, used by the request handler\<close>

datatype error =
    HTTPException int string
  | RequestValidationError "string list"
  | ValueError
  | KeyError string
  | ZeroDivisionError

text \<open>The HTTP status the framework answers with: 422 for a body the request model rejects.\<close>

fun status_code :: "error \<Rightarrow> int" where
  "status_code (HTTPException code msg) = code"
| "status_code (RequestValidationError names) = 422"
| "status_code e = 500"

text \<open>\<open>s.lower()\<close> and \<open>s.replace(old, new)\<close> with one-character arguments, on ASCII text.\<close>

definition str_lower :: "string \<Rightarrow> string" where
  "str_lower s =
     map (\<lambda>c. case map_of (zip ''ABCDEFGHIJKLMNOPQRSTUVWXYZ'' ''abcdefghijklmnopqrstuvwxyz'') c of
                 Some l \<Rightarrow> l | None \<Rightarrow> c) s"

definition str_replace :: "string \<Rightarrow> char \<Rightarrow> char \<Rightarrow> string" where
  "str_replace s old new = map (\<lambda>c. if c = old then new else c) s"

text \<open>
  \<open>range(a, b)\<close>; \<open>sum(xs)\<close> on floats, which adds from left to right, starting from 0,
  every partial sum rounded to a double (CPython up to 3.11; from 3.12 on \<open>sum\<close> carries
  a compensation term, with the same result for one or two floats);
  \<open>max(xs, key=f)\<close>, the first maximal element, an empty argument raising; and \<open>str(i)\<close>.
\<close>

definition py_range :: "int \<Rightarrow> int \<Rightarrow> int list" where
  "py_range a b = [a..b - 1]"

definition py_sum :: "real list \<Rightarrow> real" where
  "py_sum xs = foldl fadd 0 xs"

fun max_from :: "('a \<Rightarrow> real) \<Rightarrow> 'a \<Rightarrow> 'a list \<Rightarrow> 'a" where
  "max_from key best [] = best"
| "max_from key best (x # xs) = max_from key (if key best < key x then x else best) xs"

definition py_max :: "('a \<Rightarrow> real) \<Rightarrow> 'a list \<Rightarrow> error + 'a" where
  "py_max key xs = (case xs of [] \<Rightarrow> Inl ValueError | x # rest \<Rightarrow> Inr (max_from key x rest))"

definition digit_char :: "nat \<Rightarrow> char" where
  "digit_char n = ''0123456789'' ! n"

fun str_nat :: "nat \<Rightarrow> string" where
  "str_nat n = (if n < 10 then [digit_char n] else str_nat (n div 10) @ [digit_char (n mod 10)])"

declare str_nat.simps [simp del]

definition str_int :: "int \<Rightarrow> string" where
  "str_int i = (if i < 0 then CHR ''-'' # str_nat (nat (- i)) else str_nat (nat i))"

text \<open>How an f-string prints a list of plain strings: \<open>['a', 'b']\<close>.\<close>

definition repr_str :: "string \<Rightarrow> string" where
  "repr_str s = [CHR 0x27] @ s @ [CHR 0x27]"

fun str_join :: "string \<Rightarrow> string list \<Rightarrow> string" where
  "str_join sep [] = []"
| "str_join sep [x] = x"
| "str_join sep (x # y # ys) = x @ sep @ str_join sep (y # ys)"

definition repr_str_list :: "string list \<Rightarrow> string" where
  "repr_str_list xs = ''['' @ str_join '', '' (map repr_str xs) @ '']''"

subsection \<open>Models of the API\<close>

record location =
  loc_name :: string
  loc_latitude :: real
  loc_longitude :: real

definition TRAFFIC_LOCATIONS :: "(string \<times> location) list" where
  "TRAFFIC_LOCATIONS =
     [(''silk_board'', \<lparr>loc_name = ''Silk Board'', loc_latitude = double 12.9177, loc_longitude = double 77.6233\<rparr>),
      (''kr_puram'', \<lparr>loc_name = ''KR Puram'', loc_latitude = double 13.0075, loc_longitude = double 77.6959\<rparr>),
      (''whitefield'', \<lparr>loc_name = ''Whitefield'', loc_latitude = double 12.9698, loc_longitude = double 77.7500\<rparr>),
      (''hebbal'', \<lparr>loc_name = ''Hebbal'', loc_latitude = double 13.0358, loc_longitude = double 77.5970\<rparr>)]"

record TrafficPredictionRequest =
  req_place :: string
  req_day :: string
  start_hour :: int
  end_hour :: int

record HourlyPrediction =
  hour :: int
  traffic_value :: real
  traffic_level :: string
  color :: string
  severity :: int

record TrafficPredictionResponse =
  place :: string
  place_name :: string
  latitude :: real
  longitude :: real
  day :: string
  predictions :: "HourlyPrediction list"
  peak_hour :: int
  peak_traffic :: real
  average_traffic :: real
  insight :: string

text \<open>A document of the collection \<open>db.traffic_predictions\<close>.\<close>

record prediction_doc =
  doc_id :: string
  doc_place :: string
  doc_day :: string
  doc_start_hour :: int
  doc_end_hour :: int
  doc_peak_hour :: int
  doc_peak_traffic :: real
  doc_timestamp :: string

text \<open>
  What a request can change: the generator behind \<open>random.random()\<close> and the collection.
  \<open>generator_calls\<close> is a ghost field: it logs the arguments of every call of
  \<open>predict_traffic_value\<close>, so that statements about what the generator is called with
  can be made.
\<close>

record server_state =
  random_state :: rng
  traffic_predictions :: "prediction_doc list"
  generator_calls :: "(string \<times> string \<times> int) list"

text \<open>JSON values, for the body of \<open>GET /days\<close>.\<close>

datatype json = JString string | JArray "json list" | JObject "(string \<times> json) list"

subsection \<open>The request model: \<open>Field(ge=0, le=23)\<close> on both hours\<close>

definition TrafficPredictionRequest_validate ::
  "TrafficPredictionRequest \<Rightarrow> error + TrafficPredictionRequest" where
  "TrafficPredictionRequest_validate body =
     (let errs = (if 0 \<le> start_hour body \<and> start_hour body \<le> 23 then [] else [''start_hour''])
               @ (if 0 \<le> end_hour body \<and> end_hour body \<le> 23 then [] else [''end_hour''])
      in if errs = [] then Inr body else Inl (RequestValidationError errs))"

subsection \<open>Routes\<close>

definition get_days :: json where
  "get_days = JObject [(''days'', JArray (map JString DAYS_OF_WEEK))]"

text \<open>The loop of lines 182 to 191, one draw of the generator per hour.\<close>

fun predict_hours ::
  "string \<Rightarrow> string \<Rightarrow> int list \<Rightarrow> server_state \<Rightarrow> HourlyPrediction list \<times> server_state" where
  "predict_hours pl dy [] st = ([], st)"
| "predict_hours pl dy (h # hs) st =
     (let (u, g) = random_random (random_state st);
          tv = predict_traffic_value pl dy h u;
          li = get_traffic_level tv;
          st1 = st\<lparr>random_state := g, generator_calls := generator_calls st @ [(pl, dy, h)]\<rparr>;
          (ps, st2) = predict_hours pl dy hs st1
      in (\<lparr>hour = h, traffic_value = tv, traffic_level = level li,
           color = level_color li, severity = level_severity li\<rparr> # ps, st2))"

text \<open>
  The handler. \<open>uid\<close> is what \<open>str(uuid.uuid4())\<close> returns and \<open>now\<close> what
  \<open>datetime.now(timezone.utc).isoformat()\<close> returns.
\<close>

definition predict_traffic_range ::
  "string \<Rightarrow> string \<Rightarrow> server_state \<Rightarrow> TrafficPredictionRequest
     \<Rightarrow> (error + TrafficPredictionResponse) \<times> server_state" where
  "predict_traffic_range uid now st request =
     (let pl = str_replace (str_lower (req_place request)) CHR '' '' CHR ''_''
      in if pl \<notin> set (map fst TRAFFIC_LOCATIONS)
         then (Inl (HTTPException 400
                 (''Invalid location. Supported locations: ''
                    @ repr_str_list (map fst TRAFFIC_LOCATIONS))), st)
         else if req_day request \<notin> set DAYS_OF_WEEK
         then (Inl (HTTPException 400
                 (''Invalid day. Supported days: '' @ repr_str_list DAYS_OF_WEEK)), st)
         else if end_hour request < start_hour request
         then (Inl (HTTPException 400
                 ''End hour must be greater than or equal to start hour''), st)
         else
           (case map_of TRAFFIC_LOCATIONS pl of
              None \<Rightarrow> (Inl (KeyError pl), st)
            | Some loc \<Rightarrow>
               (let (preds, st1) =
                      predict_hours pl (req_day request)
                        (py_range (start_hour request) (end_hour request + 1)) st
                in case py_max traffic_value preds of
                     Inl e \<Rightarrow> (Inl e, st1)
                   | Inr peak_prediction \<Rightarrow>
                      if preds = [] then (Inl ZeroDivisionError, st1)
                      else
                        (let avg = fdiv (py_sum (map traffic_value preds))
                                        (float_of_int (int (length preds)));
                             ins =
                               (if severity peak_prediction = 3
                                then ''Peak congestion expected at '' @ str_int (hour peak_prediction)
                                       @ '':00. Consider alternative routes or delay travel by 1-2 hours.''
                                else if severity peak_prediction = 2
                                then ''Moderate traffic expected. '' @ str_int (hour peak_prediction)
                                       @ '':00 shows highest activity. Plan buffer time.''
                                else ''Traffic conditions are favorable. Smooth commute expected throughout the selected time range.'');
                             prediction_doc =
                               \<lparr>doc_id = uid, doc_place = pl, doc_day = req_day request,
                                doc_start_hour = start_hour request, doc_end_hour = end_hour request,
                                doc_peak_hour = hour peak_prediction,
                                doc_peak_traffic = traffic_value peak_prediction,
                                doc_timestamp = now\<rparr>
                         in (Inr \<lparr>place = pl, place_name = loc_name loc,
                                  latitude = loc_latitude loc, longitude = loc_longitude loc,
                                  day = req_day request, predictions = preds,
                                  peak_hour = hour peak_prediction,
                                  peak_traffic = traffic_value peak_prediction,
                                  average_traffic = py_round avg 2, insight = ins\<rparr>,
                             st1\<lparr>traffic_predictions := traffic_predictions st1 @ [prediction_doc]\<rparr>)))))"

text \<open>\<open>POST /predict-traffic\<close>: the framework builds the request model from the body, and
  calls the handler only when that succeeded.\<close>

definition post_predict_traffic ::
  "string \<Rightarrow> string \<Rightarrow> server_state \<Rightarrow> TrafficPredictionRequest
     \<Rightarrow> (error + TrafficPredictionResponse) \<times> server_state" where
  "post_predict_traffic uid now st body =
     (case TrafficPredictionRequest_validate body of
        Inl e \<Rightarrow> (Inl e, st)
      | Inr request \<Rightarrow> predict_traffic_range uid now st request)"

subsection \<open>The signal generator as the specification words it\<close>

text \<open>
  Section 4.1 of the specification, step by step: a base per location with a default, a
  weekend multiplier, an hour multiplier read from a table of bands (first matching band,
  every hour outside the bands giving 1.0), a day multiplier, the product, the jitter and
  the rounding. The arithmetic is that of floats.
\<close>

definition spec_base :: "string \<Rightarrow> int" where
  "spec_base loc =
     (if loc = ''silk_board'' then 2500
      else if loc = ''kr_puram'' then 2200
      else if loc = ''whitefield'' then 1800
      else if loc = ''hebbal'' then 2000
      else 1500)"

definition spec_weekend_multiplier :: "string \<Rightarrow> real" where
  "spec_weekend_multiplier d =
     (if d = ''Saturday'' \<or> d = ''Sunday'' then double 0.6 else double 1.0)"

definition spec_hour_bands :: "(int list \<times> real) list" where
  "spec_hour_bands =
     [([8, 9, 10], double 1.8), ([17, 18, 19, 20], double 2.0), ([12, 13, 14], double 1.3),
      ([0, 1, 2, 3, 4, 5], double 0.3), ([22, 23], double 0.5),
      ([6, 7, 11, 15, 16, 21], double 1.0)]"

definition spec_hour_multiplier :: "int \<Rightarrow> real" where
  "spec_hour_multiplier h =
     (case find (\<lambda>(band, m). h \<in> set band) spec_hour_bands of
        Some (band, m) \<Rightarrow> m | None \<Rightarrow> double 1.0)"

definition spec_day_multiplier :: "string \<Rightarrow> real" where
  "spec_day_multiplier d =
     (if d = ''Friday'' then double 1.15 else if d = ''Monday'' then double 1.10
      else double 1.0)"

definition spec_raw :: "string \<Rightarrow> string \<Rightarrow> int \<Rightarrow> real" where
  "spec_raw loc d h =
     fmul (fmul (fmul (float_of_int (spec_base loc)) (spec_weekend_multiplier d))
             (spec_hour_multiplier h))
       (spec_day_multiplier d)"

definition spec_generate :: "string \<Rightarrow> string \<Rightarrow> int \<Rightarrow> real \<Rightarrow> real" where
  "spec_generate loc d h u =
     py_round (fmul (spec_raw loc d h) (fadd (double 0.9) (fmul (double 0.2) u))) 2"

subsection \<open>The same factors in exact arithmetic\<close>

text \<open>
  The decimal constants of the source taken as exact reals, and their product: what the
  floats of the program approximate.
\<close>

definition exact_weekend_factor :: "string \<Rightarrow> real" where
  "exact_weekend_factor d = (if d \<in> set [''Saturday'', ''Sunday''] then 0.6 else 1.0)"

definition exact_hour_multiplier :: "int \<Rightarrow> real" where
  "exact_hour_multiplier h =
     (if 8 \<le> h \<and> h \<le> 10 then 1.8
      else if 17 \<le> h \<and> h \<le> 20 then 2.0
      else if 12 \<le> h \<and> h \<le> 14 then 1.3
      else if 0 \<le> h \<and> h \<le> 5 then 0.3
      else if 22 \<le> h \<and> h \<le> 23 then 0.5
      else 1.0)"

definition exact_day_factor :: "string \<Rightarrow> real" where
  "exact_day_factor d = (if d = ''Friday'' then 1.15 else if d = ''Monday'' then 1.1 else 1.0)"

definition exact_raw :: "string \<Rightarrow> string \<Rightarrow> int \<Rightarrow> real" where
  "exact_raw loc d h =
     of_int (dict_get base_traffic loc 1500) * exact_weekend_factor d
       * exact_hour_multiplier h * exact_day_factor d"

text \<open>
  The unit roundoff of doubles, and \<open>a\<close> approximating \<open>x \<ge> 0\<close> through \<open>k\<close> roundings.
\<close>

definition unit_roundoff :: real where
  "unit_roundoff = 1 / 2 ^ 53"

definition approx :: "nat \<Rightarrow> real \<Rightarrow> real \<Rightarrow> bool" where
  "approx k a x \<longleftrightarrow>
     0 \<le> x \<and> x * (1 - unit_roundoff) ^ k \<le> a \<and> a \<le> x * (1 + unit_roundoff) ^ k"

text \<open>The place the handler works with: line 159 of the source.\<close>

abbreviation request_place :: "TrafficPredictionRequest \<Rightarrow> string" where
  "request_place r \<equiv> str_replace (str_lower (req_place r)) CHR '' '' CHR ''_''"

subsection \<open>The insight builder as the specification words it\<close>

text \<open>
  Section 4.3 of the specification: \<open>buildInsight(peak)\<close> selects a template by the tier of
  the peak estimate and reads nothing but the peak. The texts are those of the source.
\<close>

definition spec_buildInsight :: "HourlyPrediction \<Rightarrow> string" where
  "spec_buildInsight peak =
     (if severity peak = 3
      then ''Peak congestion expected at '' @ str_int (hour peak)
             @ '':00. Consider alternative routes or delay travel by 1-2 hours.''
      else if severity peak = 2
      then ''Moderate traffic expected. '' @ str_int (hour peak)
             @ '':00 shows highest activity. Plan buffer time.''
      else ''Traffic conditions are favorable. Smooth commute expected throughout the selected time range.'')"

subsection \<open>A server at rest and the requests of the test suite\<close>

text \<open>
  A state whose generator returns 0.5 at every draw, with an empty collection, and the
  bodies that backend\_test.py posts.
\<close>

definition idle_state :: server_state where
  "idle_state = \<lparr>random_state = (\<lambda>n. 1 / 2), traffic_predictions = [], generator_calls = []\<rparr>"

definition valid_request :: TrafficPredictionRequest where
  "valid_request =
     \<lparr>req_place = ''silk_board'', req_day = ''Monday'', start_hour = 8, end_hour = 11\<rparr>"

definition invalid_location_request :: TrafficPredictionRequest where
  "invalid_location_request =
     \<lparr>req_place = ''invalid_location'', req_day = ''Monday'', start_hour = 8, end_hour = 11\<rparr>"

definition invalid_day_request :: TrafficPredictionRequest where
  "invalid_day_request =
     \<lparr>req_place = ''silk_board'', req_day = ''InvalidDay'', start_hour = 8, end_hour = 11\<rparr>"

definition invalid_hour_range_request :: TrafficPredictionRequest where
  "invalid_hour_range_request =
     \<lparr>req_place = ''silk_board'', req_day = ''Monday'', start_hour = 15, end_hour = 10\<rparr>"



section \<open>Properties\<close>

subsection \<open>Rounding to an integer\<close>

lemma round_half_even_lower: "\<lfloor>x\<rfloor> \<le> round_half_even x"
  unfolding round_half_even_def Let_def by simp

lemma round_half_even_ge: "of_int n \<le> x \<Longrightarrow> n \<le> round_half_even x"
proof -
  assume "of_int n \<le> x"
  then have "n \<le> \<lfloor>x\<rfloor>" by (simp add: le_floor_iff)
  with round_half_even_lower [of x] show ?thesis by linarith
qed

lemma round_half_even_le: "x \<le> of_int n \<Longrightarrow> round_half_even x \<le> n"
proof -
  assume le: "x \<le> of_int n"
  then have fl: "\<lfloor>x\<rfloor> \<le> n" by (simp add: floor_le_iff)
  show ?thesis
  proof (cases "x - of_int \<lfloor>x\<rfloor> < 1 / 2")
    case True
    with fl show ?thesis by (simp add: round_half_even_def Let_def)
  next
    case False
    then have "x \<noteq> of_int n" by auto
    with le have "x < of_int n" by simp
    then have "\<lfloor>x\<rfloor> < n" by (simp add: floor_less_iff)
    then show ?thesis by (simp add: round_half_even_def Let_def)
  qed
qed

lemma round_half_even_upper: "round_half_even x \<le> \<lfloor>x\<rfloor> + 1"
  unfolding round_half_even_def Let_def by simp

lemma round_half_even_error: "\<bar>of_int (round_half_even x) - x\<bar> \<le> 1 / 2"
proof -
  have "round_half_even x = \<lfloor>x\<rfloor> \<or> round_half_even x = \<lfloor>x\<rfloor> + 1"
    unfolding round_half_even_def Let_def by simp
  then show ?thesis
  proof
    assume a: "round_half_even x = \<lfloor>x\<rfloor>"
    then have "\<not> 1 / 2 < x - of_int \<lfloor>x\<rfloor>"
      unfolding round_half_even_def Let_def by (auto split: if_splits)
    then show ?thesis unfolding a by linarith
  next
    assume a: "round_half_even x = \<lfloor>x\<rfloor> + 1"
    then have "\<not> x - of_int \<lfloor>x\<rfloor> < 1 / 2"
      unfolding round_half_even_def Let_def by (auto split: if_splits)
    then show ?thesis unfolding a by simp
  qed
qed

lemma round_half_even_ge_margin:
  assumes "of_int n - 1 / 2 < x"
  shows "n \<le> round_half_even x"
proof -
  have "\<bar>of_int (round_half_even x) - x\<bar> \<le> 1 / 2" by (rule round_half_even_error)
  then have "of_int n - 1 < real_of_int (round_half_even x)" using assms by linarith
  then have "n - 1 < round_half_even x" by linarith
  then show ?thesis by simp
qed

lemma round_half_even_le_margin:
  assumes "x < of_int n + 1 / 2"
  shows "round_half_even x \<le> n"
proof -
  have "\<bar>of_int (round_half_even x) - x\<bar> \<le> 1 / 2" by (rule round_half_even_error)
  then have "real_of_int (round_half_even x) < of_int n + 1" using assms by linarith
  then have "round_half_even x < n + 1" by linarith
  then show ?thesis by simp
qed

subsection \<open>The binary exponent and the value of \<open>double\<close>\<close>

lemma exponent_up_spec:
  "1 \<le> x \<Longrightarrow> 2 powi (exponent_up x e - e) \<le> x \<and> x < 2 powi (exponent_up x e - e + 1)"
proof (induction x e rule: exponent_up.induct)
  case (1 x e)
  show ?case
  proof (cases "x < 2")
    case True
    then have "exponent_up x e = e" by (simp add: exponent_up.simps)
    with True "1.prems" show ?thesis by simp
  next
    case False
    then have step: "exponent_up x e = exponent_up (x / 2) (e + 1)"
      by (subst exponent_up.simps) simp
    define d where "d = exponent_up (x / 2) (e + 1) - (e + 1)"
    from False have "1 \<le> x / 2" by simp
    from "1.IH" [OF False this]
    have ih: "2 powi d \<le> x / 2" "x / 2 < 2 powi (d + 1)" by (simp_all add: d_def)
    have e1: "exponent_up x e - e = d + 1" by (simp add: step d_def)
    have "(2::real) powi (d + 1) = 2 * 2 powi d" by (simp add: power_int_add)
    moreover have "(2::real) powi (d + 1 + 1) = 2 * 2 powi (d + 1)" by (simp add: power_int_add)
    ultimately show ?thesis unfolding e1 using ih by (simp add: field_simps)
  qed
qed

lemma exponent_down_spec:
  "0 < x \<Longrightarrow> x < 1
     \<Longrightarrow> 2 powi (exponent_down x e - e) \<le> x \<and> x < 2 powi (exponent_down x e - e + 1)"
proof (induction x e rule: exponent_down.induct)
  case (1 x e)
  then have step: "exponent_down x e = exponent_down (2 * x) (e - 1)"
    by (subst exponent_down.simps) simp
  define d where "d = exponent_down (2 * x) (e - 1) - (e - 1)"
  have e1: "exponent_down x e - e = d - 1" by (simp add: step d_def)
  have ne: "\<not> (x \<le> 0 \<or> 1 \<le> x)" using "1.prems" by simp
  have p1: "(2::real) powi d = 2 * 2 powi (d - 1)"
    using power_int_add [of "2::real" "d - 1" 1] by simp
  have p2: "(2::real) powi (d - 1 + 1) = 2 powi d" by simp
  show ?case
  proof (cases "2 * x < 1")
    case True
    from "1.IH" [OF ne _ True] "1.prems"
    have ih: "2 powi d \<le> 2 * x" "2 * x < 2 powi (d + 1)" by (simp_all add: d_def)
    have "(2::real) powi (d + 1) = 2 * 2 powi d" by (simp add: power_int_add)
    with ih show ?thesis unfolding e1 p2 using p1 by simp
  next
    case False
    then have "exponent_down (2 * x) (e - 1) = e - 1" by (simp add: exponent_down.simps)
    then have d: "d = 0" by (simp add: d_def)
    have "2 powi (- 1) = (1 / 2 :: real)" by (simp add: power_int_minus field_simps)
    with False "1.prems" show ?thesis unfolding e1 d by simp
  qed
qed

lemma binary_exponent_spec:
  assumes "x \<noteq> 0"
  shows "2 powi binary_exponent x \<le> \<bar>x\<bar> \<and> \<bar>x\<bar> < 2 powi (binary_exponent x + 1)"
proof (cases "1 \<le> \<bar>x\<bar>")
  case True
  from exponent_up_spec [OF True, of 0] True show ?thesis
    by (simp add: binary_exponent_def)
next
  case False
  then have "0 < \<bar>x\<bar>" "\<bar>x\<bar> < 1" using assms by simp_all
  from exponent_down_spec [OF this, of 0] False show ?thesis
    by (simp add: binary_exponent_def)
qed

lemma binary_exponent_unique:
  assumes "2 powi e \<le> \<bar>x\<bar>" and "\<bar>x\<bar> < 2 powi (e + 1)"
  shows "binary_exponent x = e"
proof -
  have "x \<noteq> 0"
  proof
    assume "x = 0"
    with assms(1) have "2 powi e \<le> (0::real)" by simp
    moreover have "(0::real) < 2 powi e" by (rule zero_less_power_int) simp
    ultimately show False by linarith
  qed
  from binary_exponent_spec [OF this]
  have b: "2 powi binary_exponent x \<le> \<bar>x\<bar>" "\<bar>x\<bar> < 2 powi (binary_exponent x + 1)"
    by simp_all
  have "\<not> binary_exponent x < e"
  proof
    assume "binary_exponent x < e"
    then have "binary_exponent x + 1 \<le> e" by simp
    then have "(2::real) powi (binary_exponent x + 1) \<le> 2 powi e"
      by (intro power_int_increasing) simp_all
    with b assms show False by linarith
  qed
  moreover have "\<not> e < binary_exponent x"
  proof
    assume "e < binary_exponent x"
    then have "e + 1 \<le> binary_exponent x" by simp
    then have "(2::real) powi (e + 1) \<le> 2 powi binary_exponent x"
      by (intro power_int_increasing) simp_all
    with b assms show False by linarith
  qed
  ultimately show ?thesis by simp
qed

lemma round_half_even_near:
  assumes "of_int n - 1 / 2 < y" and "y < of_int n + 1 / 2"
  shows "round_half_even y = n"
proof (cases "of_int n \<le> y")
  case True
  then have f: "\<lfloor>y\<rfloor> = n" using assms(2) by (simp add: floor_eq_iff)
  show ?thesis unfolding round_half_even_def Let_def f using assms(2) by simp
next
  case False
  then have f: "\<lfloor>y\<rfloor> = n - 1" using assms(1) by (simp add: floor_eq_iff)
  show ?thesis unfolding round_half_even_def Let_def f using assms(1) False by simp
qed

lemma round_half_even_tie_down:
  assumes "y = of_int n + 1 / 2" and "even n"
  shows "round_half_even y = n"
proof -
  have f: "\<lfloor>y\<rfloor> = n" unfolding assms(1) by (simp add: floor_eq_iff)
  show ?thesis unfolding round_half_even_def Let_def f using assms by simp
qed

lemma round_half_even_tie_up:
  assumes "y = of_int n - 1 / 2" and "even n"
  shows "round_half_even y = n"
proof -
  have f: "\<lfloor>y\<rfloor> = n - 1" unfolding assms(1) by (simp add: floor_eq_iff)
  show ?thesis unfolding round_half_even_def Let_def f using assms by simp
qed

text \<open>
  Certificates for the value of \<open>double\<close>: a significand \<open>n\<close> and a scale \<open>2 ^ k\<close> such that
  \<open>x * 2 ^ k\<close> has 53 bits and rounds to \<open>n\<close>.
\<close>

lemma double_scaled:
  assumes "2 ^ 52 \<le> x * 2 ^ k" and "x * 2 ^ k < 2 ^ 53"
  shows "double x = of_int (round_half_even (x * 2 ^ k)) / 2 ^ k"
proof -
  have pos: "0 < x"
  proof -
    have "(0::real) < 2 ^ 52" by simp
    with assms(1) have "0 < x * 2 ^ k" by linarith
    then show ?thesis by (simp add: zero_less_mult_iff)
  qed
  define e :: int where "e = 52 - int k"
  have q: "(2::real) powi (e - 52) = 1 / 2 ^ k"
    by (simp add: e_def power_int_minus field_simps)
  have pe: "2 powi e = (2::real) ^ 52 / 2 ^ k"
    unfolding e_def by (simp add: power_int_diff)
  have pe1: "2 powi (e + 1) = (2::real) ^ 53 / 2 ^ k"
  proof -
    have "e + 1 = 53 - int k" by (simp add: e_def)
    then show ?thesis by (simp add: power_int_diff)
  qed
  have "2 powi e \<le> \<bar>x\<bar>"
    unfolding pe using assms(1) pos by (simp add: divide_le_eq)
  moreover have "\<bar>x\<bar> < 2 powi (e + 1)"
    unfolding pe1 using assms(2) pos by (simp add: less_divide_eq)
  ultimately have be: "binary_exponent x = e" by (rule binary_exponent_unique)
  show ?thesis using pos by (simp add: double_def be q Let_def)
qed

lemma double_cert:
  assumes "2 ^ 52 \<le> x * 2 ^ k" and "x * 2 ^ k < 2 ^ 53"
    and "of_int n - 1 / 2 < x * 2 ^ k" and "x * 2 ^ k < of_int n + 1 / 2"
  shows "double x = of_int n / 2 ^ k"
  unfolding double_scaled [OF assms(1,2)] round_half_even_near [OF assms(3,4)] ..

lemma double_cert_tie_down:
  assumes "2 ^ 52 \<le> x * 2 ^ k" and "x * 2 ^ k < 2 ^ 53"
    and "x * 2 ^ k = of_int n + 1 / 2" and "even n"
  shows "double x = of_int n / 2 ^ k"
  unfolding double_scaled [OF assms(1,2)] round_half_even_tie_down [OF assms(3,4)] ..

lemma double_cert_tie_up:
  assumes "2 ^ 52 \<le> x * 2 ^ k" and "x * 2 ^ k < 2 ^ 53"
    and "x * 2 ^ k = of_int n - 1 / 2" and "even n"
  shows "double x = of_int n / 2 ^ k"
  unfolding double_scaled [OF assms(1,2)] round_half_even_tie_up [OF assms(3,4)] ..

lemma double_zero: "double 0 = 0"
  by (simp add: double_def)

text \<open>The relative error of a rounding is at most the unit roundoff.\<close>

lemma double_error:
  assumes "0 < x"
  shows "\<bar>double x - x\<bar> \<le> x * unit_roundoff"
proof -
  define e where "e = binary_exponent x"
  define q :: real where "q = 2 powi (e - 52)"
  have x0: "x \<noteq> 0" using assms by simp
  from binary_exponent_spec [OF x0] assms have lo: "2 powi e \<le> x" by (simp add: e_def)
  have qpos: "0 < q" unfolding q_def by (rule zero_less_power_int) simp
  have "(2::real) powi e = 2 powi (e - 52) * 2 powi 52"
    using power_int_add [of "2::real" "e - 52" 52] by simp
  then have pe: "(2::real) powi e = q * 2 ^ 52" by (simp add: q_def)
  have d: "double x = of_int (round_half_even (x / q)) * q"
    using x0 by (simp add: double_def Let_def e_def q_def)
  have "\<bar>of_int (round_half_even (x / q)) - x / q\<bar> \<le> 1 / 2"
    by (rule round_half_even_error)
  then have "\<bar>of_int (round_half_even (x / q)) - x / q\<bar> * q \<le> 1 / 2 * q"
    using qpos by (intro mult_right_mono) simp_all
  moreover have "\<bar>of_int (round_half_even (x / q)) - x / q\<bar> * q = \<bar>double x - x\<bar>"
  proof -
    have "\<bar>of_int (round_half_even (x / q)) - x / q\<bar> * q
        = \<bar>(of_int (round_half_even (x / q)) - x / q) * q\<bar>"
      using qpos by (simp add: abs_mult)
    also have "(of_int (round_half_even (x / q)) - x / q) * q = double x - x"
      using qpos by (simp add: d field_simps)
    finally show ?thesis .
  qed
  moreover have "1 / 2 * q \<le> x * unit_roundoff"
  proof -
    have "q * 2 ^ 52 \<le> x" using lo pe by simp
    then have "q * 2 ^ 52 / 2 ^ 53 \<le> x / 2 ^ 53" by (intro divide_right_mono) simp_all
    then show ?thesis by (simp add: unit_roundoff_def)
  qed
  ultimately show ?thesis by linarith
qed

lemma double_bounds:
  assumes "0 \<le> x"
  shows "x * (1 - unit_roundoff) \<le> double x \<and> double x \<le> x * (1 + unit_roundoff)"
proof (cases "x = 0")
  case True
  then show ?thesis by (simp add: double_zero)
next
  case False
  then have "0 < x" using assms by simp
  from double_error [OF this] show ?thesis by (simp add: algebra_simps abs_le_iff)
qed

subsection \<open>Accumulated rounding error\<close>

lemma unit_roundoff_range: "0 < unit_roundoff" "unit_roundoff < 1"
  by (simp_all add: unit_roundoff_def)

lemma approx_exact: "0 \<le> x \<Longrightarrow> approx 0 x x"
  by (simp add: approx_def)

lemma approx_nonneg: "approx k a x \<Longrightarrow> 0 \<le> a"
proof -
  assume a: "approx k a x"
  have "0 \<le> (1 - unit_roundoff) ^ k" using unit_roundoff_range by simp
  then have "0 \<le> x * (1 - unit_roundoff) ^ k" using a by (simp add: approx_def)
  with a show ?thesis by (simp add: approx_def)
qed

lemma approx_double:
  assumes "approx k a x"
  shows "approx (Suc k) (double a) x"
proof -
  have a0: "0 \<le> a" using assms by (rule approx_nonneg)
  have x0: "0 \<le> x" and lo: "x * (1 - unit_roundoff) ^ k \<le> a"
    and hi: "a \<le> x * (1 + unit_roundoff) ^ k"
    using assms by (simp_all add: approx_def)
  from double_bounds [OF a0]
  have d: "a * (1 - unit_roundoff) \<le> double a" "double a \<le> a * (1 + unit_roundoff)"
    by simp_all
  have "x * (1 - unit_roundoff) ^ k * (1 - unit_roundoff) \<le> a * (1 - unit_roundoff)"
    using lo unit_roundoff_range by (intro mult_right_mono) simp_all
  moreover have "x * (1 - unit_roundoff) ^ Suc k = x * (1 - unit_roundoff) ^ k * (1 - unit_roundoff)"
    by simp
  ultimately have l: "x * (1 - unit_roundoff) ^ Suc k \<le> double a" using d(1) by linarith
  have "a * (1 + unit_roundoff) \<le> x * (1 + unit_roundoff) ^ k * (1 + unit_roundoff)"
    using hi unit_roundoff_range by (intro mult_right_mono) simp_all
  moreover have "x * (1 + unit_roundoff) ^ Suc k = x * (1 + unit_roundoff) ^ k * (1 + unit_roundoff)"
    by simp
  ultimately have h: "double a \<le> x * (1 + unit_roundoff) ^ Suc k" using d(2) by linarith
  show ?thesis using x0 l h by (simp add: approx_def)
qed

lemma approx_mult:
  assumes "approx j a x" and "approx k b y"
  shows "approx (j + k) (a * b) (x * y)"
proof -
  have x0: "0 \<le> x" and y0: "0 \<le> y" using assms by (simp_all add: approx_def)
  have a0: "0 \<le> a" and b0: "0 \<le> b" using assms by (auto intro: approx_nonneg)
  have p: "0 \<le> (1 - unit_roundoff) ^ j" "0 \<le> (1 - unit_roundoff) ^ k"
    using unit_roundoff_range by simp_all
  have q: "0 \<le> y * (1 - unit_roundoff) ^ k" using y0 p by simp
  have "x * (1 - unit_roundoff) ^ j * (y * (1 - unit_roundoff) ^ k) \<le> a * b"
    using assms a0 q by (intro mult_mono) (simp_all add: approx_def)
  then have l: "x * y * (1 - unit_roundoff) ^ (j + k) \<le> a * b"
    by (simp add: power_add mult_ac)
  have r: "0 \<le> x * (1 + unit_roundoff) ^ j" using x0 unit_roundoff_range by simp
  have "a * b \<le> x * (1 + unit_roundoff) ^ j * (y * (1 + unit_roundoff) ^ k)"
    using assms b0 r by (intro mult_mono) (simp_all add: approx_def)
  then have h: "a * b \<le> x * y * (1 + unit_roundoff) ^ (j + k)"
    by (simp add: power_add mult_ac)
  show ?thesis using x0 y0 l h by (simp add: approx_def)
qed

lemma approx_mono:
  assumes "approx j a x" and "j \<le> k"
  shows "approx k a x"
proof -
  have x0: "0 \<le> x" using assms by (simp add: approx_def)
  have "(1 - unit_roundoff) ^ k \<le> (1 - unit_roundoff) ^ j"
    using assms(2) unit_roundoff_range by (intro power_decreasing) simp_all
  then have "x * (1 - unit_roundoff) ^ k \<le> x * (1 - unit_roundoff) ^ j"
    using x0 by (intro mult_left_mono)
  moreover have "(1 + unit_roundoff) ^ j \<le> (1 + unit_roundoff) ^ k"
    using assms(2) unit_roundoff_range by (intro power_increasing) simp_all
  then have "x * (1 + unit_roundoff) ^ j \<le> x * (1 + unit_roundoff) ^ k"
    using x0 by (intro mult_left_mono)
  ultimately show ?thesis using assms(1) by (simp add: approx_def)
qed

lemma approx_add:
  assumes "approx k a x" and "approx k b y"
  shows "approx k (a + b) (x + y)"
  using assms by (simp add: approx_def algebra_simps add_mono)

lemma approx_fmul:
  assumes "approx j a x" and "approx k b y"
  shows "approx (Suc (j + k)) (fmul a b) (x * y)"
  unfolding fmul_def by (intro approx_double approx_mult assms)

lemma approx_fadd:
  assumes "approx k a x" and "approx k b y"
  shows "approx (Suc k) (fadd a b) (x + y)"
  unfolding fadd_def by (intro approx_double approx_add assms)

lemma approx_literal: "0 \<le> c \<Longrightarrow> approx (Suc 0) (double c) c"
  by (intro approx_double approx_exact)

text \<open>Sixteen roundings stay within \<open>2 ^ -46\<close> of the exact value, relatively.\<close>

lemma square_up: "0 \<le> a \<Longrightarrow> a \<le> 1 \<Longrightarrow> (1 + a)\<^sup>2 \<le> 1 + 3 * (a::real)"
proof -
  assume "0 \<le> a" "a \<le> 1"
  then have "a * a \<le> 1 * a" by (intro mult_right_mono) simp_all
  then show ?thesis by (simp add: power2_eq_square algebra_simps)
qed

lemma square_down: "1 - 2 * (a::real) \<le> (1 - a)\<^sup>2"
  by (simp add: power2_eq_square algebra_simps)

lemma roundoff_16:
  "(1 + unit_roundoff) ^ 16 \<le> 1 + 1 / 2 ^ 46"
  "1 - 1 / 2 ^ 46 \<le> (1 - unit_roundoff) ^ 16"
proof -
  let ?u = unit_roundoff
  have u: "0 \<le> ?u" "?u \<le> 1 / 2 ^ 53" by (simp_all add: unit_roundoff_def)
  have s1: "(1 + ?u)\<^sup>2 \<le> 1 + 3 * ?u" using u by (intro square_up) simp_all
  have "((1 + ?u)\<^sup>2)\<^sup>2 \<le> (1 + 3 * ?u)\<^sup>2" using s1 u by (intro power_mono) simp_all
  also have "\<dots> \<le> 1 + 3 * (3 * ?u)" using u by (intro square_up) simp_all
  finally have s2: "((1 + ?u)\<^sup>2)\<^sup>2 \<le> 1 + 9 * ?u" by simp
  have "(((1 + ?u)\<^sup>2)\<^sup>2)\<^sup>2 \<le> (1 + 9 * ?u)\<^sup>2" using s2 u by (intro power_mono) simp_all
  also have "\<dots> \<le> 1 + 3 * (9 * ?u)" using u by (intro square_up) simp_all
  finally have s3: "(((1 + ?u)\<^sup>2)\<^sup>2)\<^sup>2 \<le> 1 + 27 * ?u" by simp
  have "((((1 + ?u)\<^sup>2)\<^sup>2)\<^sup>2)\<^sup>2 \<le> (1 + 27 * ?u)\<^sup>2" using s3 u by (intro power_mono) simp_all
  also have "\<dots> \<le> 1 + 3 * (27 * ?u)" using u by (intro square_up) simp_all
  finally have s4: "((((1 + ?u)\<^sup>2)\<^sup>2)\<^sup>2)\<^sup>2 \<le> 1 + 81 * ?u" by simp
  have e: "((((1 + ?u)\<^sup>2)\<^sup>2)\<^sup>2)\<^sup>2 = (1 + ?u) ^ 16"
    by (simp add: power_mult [symmetric])
  have "81 * ?u \<le> 1 / 2 ^ 46" by (simp add: unit_roundoff_def)
  with s4 e show "(1 + ?u) ^ 16 \<le> 1 + 1 / 2 ^ 46" by linarith
  have t1: "1 - 2 * ?u \<le> (1 - ?u)\<^sup>2" by (rule square_down)
  have n1: "0 \<le> 1 - 2 * ?u" "0 \<le> 1 - 4 * ?u" "0 \<le> 1 - 8 * ?u"
    by (simp_all add: unit_roundoff_def)
  have "1 - 2 * (2 * ?u) \<le> (1 - 2 * ?u)\<^sup>2" by (rule square_down)
  also have "\<dots> \<le> ((1 - ?u)\<^sup>2)\<^sup>2" using t1 n1 by (intro power_mono) simp_all
  finally have t2: "1 - 4 * ?u \<le> ((1 - ?u)\<^sup>2)\<^sup>2" by simp
  have "1 - 2 * (4 * ?u) \<le> (1 - 4 * ?u)\<^sup>2" by (rule square_down)
  also have "\<dots> \<le> (((1 - ?u)\<^sup>2)\<^sup>2)\<^sup>2" using t2 n1 by (intro power_mono) simp_all
  finally have t3: "1 - 8 * ?u \<le> (((1 - ?u)\<^sup>2)\<^sup>2)\<^sup>2" by simp
  have "1 - 2 * (8 * ?u) \<le> (1 - 8 * ?u)\<^sup>2" by (rule square_down)
  also have "\<dots> \<le> ((((1 - ?u)\<^sup>2)\<^sup>2)\<^sup>2)\<^sup>2" using t3 n1 by (intro power_mono) simp_all
  finally have t4: "1 - 16 * ?u \<le> ((((1 - ?u)\<^sup>2)\<^sup>2)\<^sup>2)\<^sup>2" by simp
  have e': "((((1 - ?u)\<^sup>2)\<^sup>2)\<^sup>2)\<^sup>2 = (1 - ?u) ^ 16"
    by (simp add: power_mult [symmetric])
  have "16 * ?u \<le> 1 / 2 ^ 46" by (simp add: unit_roundoff_def)
  with t4 e' show "1 - 1 / 2 ^ 46 \<le> (1 - ?u) ^ 16" by linarith
qed

lemma approx_bounds:
  assumes "approx k a x" and "k \<le> 16"
  shows "x * (1 - 1 / 2 ^ 46) \<le> a" and "a \<le> x * (1 + 1 / 2 ^ 46)"
proof -
  from approx_mono [OF assms] have a: "approx 16 a x" .
  then have x0: "0 \<le> x" by (simp add: approx_def)
  have "x * (1 - 1 / 2 ^ 46) \<le> x * (1 - unit_roundoff) ^ 16"
    using x0 roundoff_16(2) by (intro mult_left_mono)
  with a show "x * (1 - 1 / 2 ^ 46) \<le> a" by (simp add: approx_def)
  have "x * (1 + unit_roundoff) ^ 16 \<le> x * (1 + 1 / 2 ^ 46)"
    using x0 roundoff_16(1) by (intro mult_left_mono)
  with a show "a \<le> x * (1 + 1 / 2 ^ 46)" by (simp add: approx_def)
qed

subsection \<open>The factors of the signal generator\<close>

lemma fmul_commute: "fmul a b = fmul b a"
  by (simp add: fmul_def mult.commute)

lemma base_eq_spec: "dict_get base_traffic pl 1500 = spec_base pl"
  by (simp add: dict_get_def base_traffic_def spec_base_def)

lemma weekend_eq_spec: "weekend_factor dy = spec_weekend_multiplier dy"
  by (simp add: weekend_factor_def spec_weekend_multiplier_def)

lemma hour_eq_spec: "hour_multiplier hr = spec_hour_multiplier hr"
  unfolding hour_multiplier_def spec_hour_multiplier_def spec_hour_bands_def
  by (simp; presburger)

lemma day_eq_spec: "day_factor dy = spec_day_multiplier dy"
  by (simp add: day_factor_def spec_day_multiplier_def)

lemma traffic_raw_eq_spec: "traffic_raw pl dy hr = spec_raw pl dy hr"
  by (simp only: traffic_raw_def spec_raw_def base_eq_spec weekend_eq_spec hour_eq_spec
      day_eq_spec)

text \<open>What \<open>round(x, 2)\<close> returns: the double of a hundredth nearest to \<open>x\<close>.\<close>

lemma py_round_nearest:
  "\<exists>n. py_round x 2 = double (of_int n / 100) \<and> \<bar>of_int n / 100 - x\<bar> \<le> 1 / 200"
proof -
  define n where "n = round_half_even (x * 10 ^ 2)"
  have "\<bar>of_int n - x * 10 ^ 2\<bar> \<le> 1 / 2" unfolding n_def by (rule round_half_even_error)
  then have "\<bar>of_int n / 100 - x\<bar> \<le> 1 / 200" by (simp add: abs_le_iff field_simps)
  moreover have "py_round x 2 = double (of_int n / 100)" by (simp add: py_round_def n_def)
  ultimately show ?thesis by blast
qed

subsection \<open>The product in exact arithmetic\<close>

lemma base_hundreds:
  "\<exists>b::int. 0 < b \<and> b \<le> 25 \<and> dict_get base_traffic pl 1500 = 100 * b"
proof -
  have "dict_get base_traffic pl 1500 \<in> (\<lambda>b. 100 * b) ` {25, 22, 18, 20, 15 :: int}"
    by (simp add: dict_get_def base_traffic_def)
  then show ?thesis by auto
qed

lemma hour_tenths:
  "\<exists>m::int. 0 < m \<and> m \<le> 20 \<and> exact_hour_multiplier hr * 10 = of_int m"
proof -
  define m :: int where
    "m = (if 8 \<le> hr \<and> hr \<le> 10 then 18
          else if 17 \<le> hr \<and> hr \<le> 20 then 20
          else if 12 \<le> hr \<and> hr \<le> 14 then 13
          else if 0 \<le> hr \<and> hr \<le> 5 then 3
          else if 22 \<le> hr \<and> hr \<le> 23 then 5
          else 10)"
  have "0 < m" "m \<le> 20" by (simp_all add: m_def)
  moreover have "exact_hour_multiplier hr * 10 = of_int m"
    by (simp add: exact_hour_multiplier_def m_def)
  ultimately show ?thesis by blast
qed

lemma day_hundredths:
  "\<exists>w::int. 0 < w \<and> w \<le> 115
     \<and> exact_weekend_factor dy * exact_day_factor dy * 100 = of_int w"
proof -
  define w :: int where
    "w = (if dy = ''Saturday'' \<or> dy = ''Sunday'' then 60
          else if dy = ''Friday'' then 115
          else if dy = ''Monday'' then 110
          else 100)"
  have "0 < w" "w \<le> 115" by (simp_all add: w_def)
  moreover have "exact_weekend_factor dy * exact_day_factor dy * 100 = of_int w"
    by (simp add: exact_weekend_factor_def exact_day_factor_def w_def)
  ultimately show ?thesis by blast
qed

text \<open>The exact product is a positive multiple of one tenth, at most 5750.\<close>

lemma exact_raw_grid:
  "\<exists>k::int. 0 < k \<and> k \<le> 57500 \<and> exact_raw pl dy hr * 10 = of_int k"
proof -
  obtain b where b: "0 < b" "b \<le> 25" "dict_get base_traffic pl 1500 = 100 * b"
    using base_hundreds by blast
  obtain m :: int where m: "0 < m" "m \<le> 20" "exact_hour_multiplier hr * 10 = of_int m"
    using hour_tenths by blast
  obtain w :: int where w: "0 < w" "w \<le> 115"
    "exact_weekend_factor dy * exact_day_factor dy * 100 = of_int w"
    using day_hundredths by blast
  have "exact_raw pl dy hr * 10
      = of_int (100 * b) * (exact_weekend_factor dy * exact_day_factor dy * 100)
          * (exact_hour_multiplier hr * 10) / 100"
    by (simp add: exact_raw_def b)
  also have "\<dots> = of_int (b * w * m)"
    by (simp add: m w)
  finally have "exact_raw pl dy hr * 10 = of_int (b * w * m)" .
  moreover have "0 < b * w * m" using b m w by simp
  moreover have "b * w * m \<le> 57500"
  proof -
    have "b * w \<le> 25 * 115" using b w by (intro mult_mono) simp_all
    then have "b * w * m \<le> 25 * 115 * 20" using b m w by (intro mult_mono) simp_all
    then show ?thesis by simp
  qed
  ultimately show ?thesis by blast
qed

subsection \<open>The floats of the generator against the exact values\<close>

lemma weekend_factor_approx: "approx (Suc 0) (weekend_factor dy) (exact_weekend_factor dy)"
  unfolding weekend_factor_def exact_weekend_factor_def
  by (simp add: approx_literal)

lemma hour_multiplier_approx: "approx (Suc 0) (hour_multiplier hr) (exact_hour_multiplier hr)"
  unfolding hour_multiplier_def exact_hour_multiplier_def
  by (simp add: approx_literal)

lemma day_factor_approx: "approx (Suc 0) (day_factor dy) (exact_day_factor dy)"
  unfolding day_factor_def exact_day_factor_def
  by (simp add: approx_literal)

lemma base_approx:
  "approx (Suc 0) (float_of_int (dict_get base_traffic pl 1500))
     (of_int (dict_get base_traffic pl 1500))"
proof -
  obtain b where "0 < b" "dict_get base_traffic pl 1500 = 100 * b"
    using base_hundreds by blast
  then have "0 \<le> real_of_int (dict_get base_traffic pl 1500)" by simp
  then show ?thesis unfolding float_of_int_def by (rule approx_literal)
qed

lemma traffic_raw_approx: "approx 7 (traffic_raw pl dy hr) (exact_raw pl dy hr)"
proof -
  have "approx (Suc (Suc (Suc (Suc 0 + Suc 0) + Suc 0) + Suc 0))
      (traffic_raw pl dy hr) (exact_raw pl dy hr)"
    unfolding traffic_raw_def exact_raw_def
    by (intro approx_fmul base_approx weekend_factor_approx hour_multiplier_approx
        day_factor_approx)
  then show ?thesis by (simp add: eval_nat_numeral)
qed

lemma jitter_approx:
  assumes "0 \<le> u"
  shows "approx 3 (fadd (double 0.9) (fmul u (double 0.2))) (0.9 + u * 0.2)"
proof -
  have a: "approx (Suc (0 + Suc 0)) (fmul u (double 0.2)) (u * 0.2)"
    by (intro approx_fmul approx_exact approx_literal assms) simp
  have "approx (Suc 0) (double 0.9) 0.9" by (rule approx_literal) simp
  then have b: "approx (Suc (0 + Suc 0)) (double 0.9) 0.9" by (rule approx_mono) simp
  have "approx (Suc (Suc (0 + Suc 0))) (fadd (double 0.9) (fmul u (double 0.2)))
      (0.9 + u * 0.2)"
    by (intro approx_fadd a b)
  then show ?thesis by (simp add: eval_nat_numeral)
qed

lemma traffic_approx:
  assumes "0 \<le> u"
  shows "approx 11 (fmul (traffic_raw pl dy hr) (fadd (double 0.9) (fmul u (double 0.2))))
           (exact_raw pl dy hr * (0.9 + u * 0.2))"
proof -
  have "approx (Suc (7 + 3))
      (fmul (traffic_raw pl dy hr) (fadd (double 0.9) (fmul u (double 0.2))))
      (exact_raw pl dy hr * (0.9 + u * 0.2))"
    by (intro approx_fmul traffic_raw_approx jitter_approx assms)
  then show ?thesis by (simp add: eval_nat_numeral)
qed

text \<open>
  The value returned for a draw in \<open>[0, 1)\<close> is the double of a hundredth that lies in the
  envelope of the exact product.
\<close>

lemma predict_traffic_value_hundredth:
  assumes "0 \<le> u" and "u < 1"
  shows "\<exists>n. predict_traffic_value pl dy hr u = double (of_int n / 100)
     \<and> 0.9 * exact_raw pl dy hr \<le> of_int n / 100
     \<and> of_int n / 100 \<le> 1.1 * exact_raw pl dy hr"
proof -
  obtain k :: int where k: "0 < k" "k \<le> 57500" "exact_raw pl dy hr * 10 = of_int k"
    using exact_raw_grid by blast
  define R where "R = exact_raw pl dy hr"
  have R: "R = of_int k / 10" using k by (simp add: R_def)
  define X where "X = R * (0.9 + u * 0.2)"
  define t where
    "t = fmul (traffic_raw pl dy hr) (fadd (double 0.9) (fmul u (double 0.2)))"
  define n where "n = round_half_even (t * 10 ^ 2)"
  have v: "predict_traffic_value pl dy hr u = double (of_int n / 100)"
    by (simp add: predict_traffic_value_def Let_def t_def n_def py_round_def)
  have Rpos: "0 < R" and Rle: "R \<le> 5750" using k by (simp_all add: R)
  have Xlo: "0.9 * R \<le> X" and Xhi: "X \<le> 1.1 * R"
  proof -
    have "R * 0.9 \<le> R * (0.9 + u * 0.2)"
      using Rpos assms by (intro mult_left_mono) simp_all
    then show "0.9 * R \<le> X" by (simp add: X_def mult.commute)
    have "R * (0.9 + u * 0.2) \<le> R * 1.1"
      using Rpos assms by (intro mult_left_mono) simp_all
    then show "X \<le> 1.1 * R" by (simp add: X_def mult.commute)
  qed
  have X0: "0 \<le> X" using Xlo Rpos by simp
  have Xle: "X \<le> 6325" using Xhi Rle by simp
  have "approx 11 t X" unfolding t_def X_def R_def by (rule traffic_approx [OF assms(1)])
  from approx_bounds [OF this]
  have tb: "X * (1 - 1 / 2 ^ 46) \<le> t" "t \<le> X * (1 + 1 / 2 ^ 46)" by simp_all
  have err: "X / 2 ^ 46 \<le> 1 / 400"
  proof -
    have "X / 2 ^ 46 \<le> 6325 / 2 ^ 46" using Xle by (intro divide_right_mono) simp_all
    also have "\<dots> \<le> 1 / 400" by simp
    finally show ?thesis .
  qed
  have tlo: "X - 1 / 400 \<le> t" using tb(1) err by (simp add: algebra_simps)
  have thi: "t \<le> X + 1 / 400" using tb(2) err by (simp add: algebra_simps)
  have "of_int (9 * k) - 1 / 2 < t * 10 ^ 2"
  proof -
    have "of_int (9 * k) = 0.9 * R * 100" by (simp add: R)
    then show ?thesis using Xlo tlo by simp
  qed
  then have nlo: "9 * k \<le> n" unfolding n_def by (rule round_half_even_ge_margin)
  have "t * 10 ^ 2 < of_int (11 * k) + 1 / 2"
  proof -
    have "of_int (11 * k) = 1.1 * R * 100" by (simp add: R)
    then show ?thesis using Xhi thi by simp
  qed
  then have nhi: "n \<le> 11 * k" unfolding n_def by (rule round_half_even_le_margin)
  have "0.9 * R = of_int (9 * k) / 100" by (simp add: R)
  also have "\<dots> \<le> of_int n / 100" using nlo by (intro divide_right_mono) simp_all
  finally have lo: "0.9 * R \<le> of_int n / 100" .
  have "of_int n / 100 \<le> real_of_int (11 * k) / 100"
    using nhi by (intro divide_right_mono) simp_all
  also have "\<dots> = 1.1 * R" by (simp add: R)
  finally have hi: "of_int n / 100 \<le> 1.1 * R" .
  show ?thesis using v lo hi unfolding R_def by blast
qed

text \<open>Hence it lies in the envelope of the float product, up to \<open>10 ^ -9\<close>.\<close>

lemma predict_traffic_value_near_envelope:
  assumes "0 \<le> u" and "u < 1"
  shows "0 \<le> predict_traffic_value pl dy hr u"
    and "0.9 * traffic_raw pl dy hr - 1 / 10 ^ 9 \<le> predict_traffic_value pl dy hr u"
    and "predict_traffic_value pl dy hr u \<le> 1.1 * traffic_raw pl dy hr + 1 / 10 ^ 9"
proof -
  obtain k :: int where k: "0 < k" "k \<le> 57500" "exact_raw pl dy hr * 10 = of_int k"
    using exact_raw_grid by blast
  define R where "R = exact_raw pl dy hr"
  have R: "R = of_int k / 10" using k by (simp add: R_def)
  have Rpos: "0 < R" and Rle: "R \<le> 5750" using k by (simp_all add: R)
  define r where "r = traffic_raw pl dy hr"
  define v where "v = predict_traffic_value pl dy hr u"
  from predict_traffic_value_hundredth [OF assms, of pl dy hr]
  obtain n where n: "v = double (of_int n / 100)" "0.9 * R \<le> of_int n / 100"
    "of_int n / 100 \<le> 1.1 * R" unfolding v_def R_def by blast
  define c where "c = real_of_int n / 100"
  have c0: "0 \<le> c" using n(2) Rpos by (simp add: c_def)
  have "approx (Suc 0) v c" unfolding n(1) c_def [symmetric] by (rule approx_literal [OF c0])
  from approx_bounds [OF this]
  have vb: "c * (1 - 1 / 2 ^ 46) \<le> v" "v \<le> c * (1 + 1 / 2 ^ 46)" by simp_all
  have "approx 7 r R" unfolding r_def R_def by (rule traffic_raw_approx)
  from approx_bounds [OF this]
  have rb: "R * (1 - 1 / 2 ^ 46) \<le> r" "r \<le> R * (1 + 1 / 2 ^ 46)" by simp_all
  have cle: "c \<le> 6325" using n(3) Rle by (simp add: c_def)
  have small: "6325 / 2 ^ 46 \<le> (1 / 10 ^ 9) / (4::real)" by simp
  have ec: "c / 2 ^ 46 \<le> (1 / 10 ^ 9) / 4"
  proof -
    have "c / 2 ^ 46 \<le> 6325 / 2 ^ 46" using cle by (intro divide_right_mono) simp_all
    with small show ?thesis by linarith
  qed
  have eR: "R / 2 ^ 46 \<le> (1 / 10 ^ 9) / 4"
  proof -
    have "R / 2 ^ 46 \<le> 6325 / 2 ^ 46" using Rle by (intro divide_right_mono) simp_all
    with small show ?thesis by linarith
  qed
  have v1: "c - (1 / 10 ^ 9) / 4 \<le> v" using vb(1) ec by (simp add: algebra_simps)
  have v2: "v \<le> c + (1 / 10 ^ 9) / 4" using vb(2) ec by (simp add: algebra_simps)
  have r1: "R - (1 / 10 ^ 9) / 4 \<le> r" using rb(1) eR by (simp add: algebra_simps)
  have r2: "r \<le> R + (1 / 10 ^ 9) / 4" using rb(2) eR by (simp add: algebra_simps)
  have "0 \<le> c * (1 - 1 / 2 ^ 46)" using c0 by simp
  with vb(1) show "0 \<le> predict_traffic_value pl dy hr u" unfolding v_def by linarith
  show "0.9 * traffic_raw pl dy hr - 1 / 10 ^ 9 \<le> predict_traffic_value pl dy hr u"
    using v1 r2 n(2) unfolding v_def [symmetric] r_def [symmetric] c_def [symmetric]
    by (simp add: c_def) 
  show "predict_traffic_value pl dy hr u \<le> 1.1 * traffic_raw pl dy hr + 1 / 10 ^ 9"
    using v2 r1 n(3) unfolding v_def [symmetric] r_def [symmetric] c_def [symmetric]
    by (simp add: c_def)
qed

text \<open>The weekend product stays below the product of any other day, on floats too.\<close>

lemma exact_weekend_below:
  assumes "weekend \<in> {''Saturday'', ''Sunday''}" and "weekday \<notin> {''Saturday'', ''Sunday''}"
  shows "exact_raw pl weekend hr \<le> 0.6 * exact_raw pl weekday hr"
    and "0 < exact_raw pl weekday hr"
proof -
  obtain b where b: "0 < b" "dict_get base_traffic pl 1500 = 100 * b"
    using base_hundreds by blast
  obtain m :: int where m: "0 < m" "exact_hour_multiplier hr * 10 = of_int m"
    using hour_tenths by blast
  have hpos: "0 < exact_hour_multiplier hr"
  proof -
    have "0 < exact_hour_multiplier hr * 10" using m by simp
    then show ?thesis by simp
  qed
  have we: "exact_weekend_factor weekend = 0.6" "exact_day_factor weekend = 1"
    using assms(1) by (auto simp: exact_weekend_factor_def exact_day_factor_def)
  have wd: "exact_weekend_factor weekday = 1" "1 \<le> exact_day_factor weekday"
    using assms(2) by (auto simp: exact_weekend_factor_def exact_day_factor_def)
  define c where "c = real_of_int (dict_get base_traffic pl 1500) * exact_hour_multiplier hr"
  have c: "0 < c" using b hpos by (simp add: c_def)
  have e1: "exact_raw pl weekend hr = 0.6 * c"
    by (simp add: exact_raw_def we c_def)
  have e2: "exact_raw pl weekday hr = c * exact_day_factor weekday"
    by (simp add: exact_raw_def wd c_def)
  have "c * 1 \<le> c * exact_day_factor weekday" using c wd(2) by (intro mult_left_mono) simp_all
  then have ge: "c \<le> exact_raw pl weekday hr" by (simp add: e2)
  then show "exact_raw pl weekend hr \<le> 0.6 * exact_raw pl weekday hr" by (simp add: e1)
  from c ge show "0 < exact_raw pl weekday hr" by linarith
qed

lemma traffic_raw_weekend_below:
  assumes "weekend \<in> {''Saturday'', ''Sunday''}" and "weekday \<notin> {''Saturday'', ''Sunday''}"
  shows "traffic_raw pl weekend hr < traffic_raw pl weekday hr"
proof -
  define W where "W = exact_raw pl weekend hr"
  define D where "D = exact_raw pl weekday hr"
  from exact_weekend_below [OF assms, of pl hr]
  have WD: "W \<le> 0.6 * D" and D: "0 < D" by (simp_all add: W_def D_def)
  have "approx 7 (traffic_raw pl weekend hr) W" unfolding W_def by (rule traffic_raw_approx)
  from approx_bounds(2) [OF this]
  have w: "traffic_raw pl weekend hr \<le> W * (1 + 1 / 2 ^ 46)" by simp
  have "approx 7 (traffic_raw pl weekday hr) D" unfolding D_def by (rule traffic_raw_approx)
  from approx_bounds(1) [OF this]
  have d: "D * (1 - 1 / 2 ^ 46) \<le> traffic_raw pl weekday hr" by simp
  have "W * (1 + 1 / 2 ^ 46) \<le> 0.6 * D * (1 + 1 / 2 ^ 46)"
    using WD by (intro mult_right_mono) simp_all
  also have "\<dots> = D * (0.6 * (1 + 1 / 2 ^ 46))" by simp
  also have "\<dots> < D * (1 - 1 / 2 ^ 46)" using D by (intro mult_strict_left_mono) simp_all
  finally show ?thesis using w d by linarith
qed

subsection \<open>Float literals and sample values, by certificate\<close>

text \<open>
  Each value is established by \<open>double_cert\<close>: the significand and the exponent are given,
  and the inequalities that make them the rounding are checked by arithmetic.
\<close>

lemma double_0_6: "double 0.6 = of_int 5404319552844595 / 2 ^ 53"
  by (rule double_cert) simp_all

lemma double_1_0: "double 1.0 = of_int 4503599627370496 / 2 ^ 52"
  by (rule double_cert) simp_all

lemma double_1_8: "double 1.8 = of_int 8106479329266893 / 2 ^ 52"
  by (rule double_cert) simp_all

lemma double_2_0: "double 2.0 = of_int 4503599627370496 / 2 ^ 51"
  by (rule double_cert) simp_all

lemma double_1_3: "double 1.3 = of_int 5854679515581645 / 2 ^ 52"
  by (rule double_cert) simp_all

lemma double_0_3: "double 0.3 = of_int 5404319552844595 / 2 ^ 54"
  by (rule double_cert) simp_all

lemma double_0_5: "double 0.5 = of_int 4503599627370496 / 2 ^ 53"
  by (rule double_cert) simp_all

lemma double_1_15: "double 1.15 = of_int 5179139571476070 / 2 ^ 52"
  by (rule double_cert) simp_all

lemma double_1_1: "double 1.1 = of_int 4953959590107546 / 2 ^ 52"
  by (rule double_cert) simp_all

lemma double_0_9: "double 0.9 = of_int 8106479329266893 / 2 ^ 53"
  by (rule double_cert) simp_all

lemma double_0_2: "double 0.2 = of_int 7205759403792794 / 2 ^ 55"
  by (rule double_cert) simp_all

lemma double_763_13: "double 763.13 = of_int 6712562468037591 / 2 ^ 43"
  by (rule double_cert) simp_all

lemma double_5809_37: "double 5809.37 = of_int 6387469865053061 / 2 ^ 40"
  by (rule double_cert) simp_all



lemma double_3617_9: "double 3617.9 = of_int 7955846236261581 / 2 ^ 41"
  by (rule double_cert) simp_all

lemma raw_silk_board_monday_0:
  "traffic_raw ''silk_board'' ''Monday'' 0 = of_int 7256776743321601 / 2 ^ 43"
proof -
  have b0: "dict_get base_traffic ''silk_board'' 1500 = 2500"
    by (simp add: dict_get_def base_traffic_def)
  have b: "float_of_int (dict_get base_traffic ''silk_board'' 1500)
      = of_int 5497558138880000 / 2 ^ 41"
    unfolding b0 float_of_int_def by (rule double_cert) simp_all
  have w0: "weekend_factor ''Monday'' = double 1.0" by (simp add: weekend_factor_def)
  have w: "weekend_factor ''Monday''
      = of_int 4503599627370496 / 2 ^ 52"
    unfolding w0 by (rule double_cert) simp_all
  have h0: "hour_multiplier 0 = double 0.3" by (simp add: hour_multiplier_def)
  have h: "hour_multiplier 0
      = of_int 5404319552844595 / 2 ^ 54"
    unfolding h0 by (rule double_cert) simp_all
  have d0: "day_factor ''Monday'' = double 1.1" by (simp add: day_factor_def)
  have d: "day_factor ''Monday''
      = of_int 4953959590107546 / 2 ^ 52"
    unfolding d0 by (rule double_cert) simp_all
  have r1: "fmul (float_of_int (dict_get base_traffic ''silk_board'' 1500)) (weekend_factor ''Monday'')
      = of_int 5497558138880000 / 2 ^ 41"
    unfolding b w unfolding fmul_def by (rule double_cert) simp_all
  have r2: "fmul (fmul (float_of_int (dict_get base_traffic ''silk_board'' 1500)) (weekend_factor ''Monday''))
      (hour_multiplier 0)
      = of_int 6597069766656000 / 2 ^ 43"
    unfolding r1 h unfolding fmul_def by (rule double_cert) simp_all
  show ?thesis
    unfolding traffic_raw_def r2 d unfolding fmul_def by (rule double_cert) simp_all
qed

lemma value_night_eighth:
  "predict_traffic_value ''silk_board'' ''Monday'' 0 (1 / 8) = of_int 6712562468037591 / 2 ^ 43"
proof -
  have c2: "double 0.2
      = of_int 7205759403792794 / 2 ^ 55"
     by (rule double_cert) simp_all
  have c9: "double 0.9
      = of_int 8106479329266893 / 2 ^ 53"
     by (rule double_cert) simp_all
  have j1: "fmul (1 / 8) (double 0.2)
      = of_int 7205759403792794 / 2 ^ 58"
    unfolding c2 unfolding fmul_def by (rule double_cert) simp_all
  have j2: "fadd (double 0.9) (fmul (1 / 8) (double 0.2))
      = of_int 8331659310635418 / 2 ^ 53"
    unfolding j1 c9 unfolding fadd_def by (rule double_cert) simp_all
  have t: "fmul (traffic_raw ''silk_board'' ''Monday'' 0) (fadd (double 0.9) (fmul (1 / 8) (double 0.2)))
      = of_int 6712518487572481 / 2 ^ 43"
    unfolding raw_silk_board_monday_0 j2 unfolding fmul_def by (rule double_cert) simp_all
  have n: "round_half_even (of_int 6712518487572481 / 2 ^ 43 * 10 ^ 2) = 76313"
    by (rule round_half_even_near) simp_all
  show ?thesis
    unfolding predict_traffic_value_def Let_def t unfolding py_round_def n by (rule double_cert) simp_all
qed

lemma raw_silk_board_monday_17:
  "traffic_raw ''silk_board'' ''Monday'' 17 = of_int 6047313952768000 / 2 ^ 40"
proof -
  have b0: "dict_get base_traffic ''silk_board'' 1500 = 2500"
    by (simp add: dict_get_def base_traffic_def)
  have b: "float_of_int (dict_get base_traffic ''silk_board'' 1500)
      = of_int 5497558138880000 / 2 ^ 41"
    unfolding b0 float_of_int_def by (rule double_cert) simp_all
  have w0: "weekend_factor ''Monday'' = double 1.0" by (simp add: weekend_factor_def)
  have w: "weekend_factor ''Monday''
      = of_int 4503599627370496 / 2 ^ 52"
    unfolding w0 by (rule double_cert) simp_all
  have h0: "hour_multiplier 17 = double 2.0" by (simp add: hour_multiplier_def)
  have h: "hour_multiplier 17
      = of_int 4503599627370496 / 2 ^ 51"
    unfolding h0 by (rule double_cert) simp_all
  have d0: "day_factor ''Monday'' = double 1.1" by (simp add: day_factor_def)
  have d: "day_factor ''Monday''
      = of_int 4953959590107546 / 2 ^ 52"
    unfolding d0 by (rule double_cert) simp_all
  have r1: "fmul (float_of_int (dict_get base_traffic ''silk_board'' 1500)) (weekend_factor ''Monday'')
      = of_int 5497558138880000 / 2 ^ 41"
    unfolding b w unfolding fmul_def by (rule double_cert) simp_all
  have r2: "fmul (fmul (float_of_int (dict_get base_traffic ''silk_board'' 1500)) (weekend_factor ''Monday''))
      (hour_multiplier 17)
      = of_int 5497558138880000 / 2 ^ 40"
    unfolding r1 h unfolding fmul_def by (rule double_cert) simp_all
  show ?thesis
    unfolding traffic_raw_def r2 d unfolding fmul_def by (rule double_cert) simp_all
qed

lemma value_evening:
  "predict_traffic_value ''silk_board'' ''Monday'' 17 (25 / 32) = of_int 6387469865053061 / 2 ^ 40"
proof -
  have c2: "double 0.2
      = of_int 7205759403792794 / 2 ^ 55"
     by (rule double_cert) simp_all
  have c9: "double 0.9
      = of_int 8106479329266893 / 2 ^ 53"
     by (rule double_cert) simp_all
  have j1: "fmul (25 / 32) (double 0.2)
      = of_int 5629499534213120 / 2 ^ 55"
    unfolding c2 unfolding fmul_def by (rule double_cert) simp_all
  have j2: "fadd (double 0.9) (fmul (25 / 32) (double 0.2))
      = of_int 4756927106410086 / 2 ^ 52"
    unfolding j1 c9 unfolding fadd_def by (rule double_cert_tie_down) simp_all
  have t: "fmul (traffic_raw ''silk_board'' ''Monday'' 17) (fadd (double 0.9) (fmul (25 / 32) (double 0.2)))
      = of_int 6387475362611199 / 2 ^ 40"
    unfolding raw_silk_board_monday_17 j2 unfolding fmul_def by (rule double_cert) simp_all
  have n: "round_half_even (of_int 6387475362611199 / 2 ^ 40 * 10 ^ 2) = 580937"
    by (rule round_half_even_near) simp_all
  show ?thesis
    unfolding predict_traffic_value_def Let_def t unfolding py_round_def n by (rule double_cert) simp_all
qed

lemma value_night_zero:
  "predict_traffic_value ''silk_board'' ''Monday'' 0 0 = of_int 6531099068989440 / 2 ^ 43"
proof -
  have c2: "double 0.2
      = of_int 7205759403792794 / 2 ^ 55"
     by (rule double_cert) simp_all
  have c9: "double 0.9
      = of_int 8106479329266893 / 2 ^ 53"
     by (rule double_cert) simp_all
  have j1: "fmul 0 (double 0.2) = 0" by (simp add: fmul_def double_zero)
  have j2: "fadd (double 0.9) (fmul 0 (double 0.2))
      = of_int 8106479329266893 / 2 ^ 53"
    unfolding j1 c9 unfolding fadd_def by (rule double_cert) simp_all
  have t: "fmul (traffic_raw ''silk_board'' ''Monday'' 0) (fadd (double 0.9) (fmul 0 (double 0.2)))
      = of_int 6531099068989441 / 2 ^ 43"
    unfolding raw_silk_board_monday_0 j2 unfolding fmul_def by (rule double_cert) simp_all
  have n: "round_half_even (of_int 6531099068989441 / 2 ^ 43 * 10 ^ 2) = 74250"
    by (rule round_half_even_near) simp_all
  show ?thesis
    unfolding predict_traffic_value_def Let_def t unfolding py_round_def n by (rule double_cert) simp_all
qed

lemma raw_kr_puram_friday_12:
  "traffic_raw ''kr_puram'' ''Friday'' 12 = of_int 7232587487510527 / 2 ^ 41"
proof -
  have b0: "dict_get base_traffic ''kr_puram'' 1500 = 2200"
    by (simp add: dict_get_def base_traffic_def)
  have b: "float_of_int (dict_get base_traffic ''kr_puram'' 1500)
      = of_int 4837851162214400 / 2 ^ 41"
    unfolding b0 float_of_int_def by (rule double_cert) simp_all
  have w0: "weekend_factor ''Friday'' = double 1.0" by (simp add: weekend_factor_def)
  have w: "weekend_factor ''Friday''
      = of_int 4503599627370496 / 2 ^ 52"
    unfolding w0 by (rule double_cert) simp_all
  have h0: "hour_multiplier 12 = double 1.3" by (simp add: hour_multiplier_def)
  have h: "hour_multiplier 12
      = of_int 5854679515581645 / 2 ^ 52"
    unfolding h0 by (rule double_cert) simp_all
  have d0: "day_factor ''Friday'' = double 1.15" by (simp add: day_factor_def)
  have d: "day_factor ''Friday''
      = of_int 5179139571476070 / 2 ^ 52"
    unfolding d0 by (rule double_cert) simp_all
  have r1: "fmul (float_of_int (dict_get base_traffic ''kr_puram'' 1500)) (weekend_factor ''Friday'')
      = of_int 4837851162214400 / 2 ^ 41"
    unfolding b w unfolding fmul_def by (rule double_cert) simp_all
  have r2: "fmul (fmul (float_of_int (dict_get base_traffic ''kr_puram'' 1500)) (weekend_factor ''Friday''))
      (hour_multiplier 12)
      = of_int 6289206510878720 / 2 ^ 41"
    unfolding r1 h unfolding fmul_def by (rule double_cert) simp_all
  show ?thesis
    unfolding traffic_raw_def r2 d unfolding fmul_def by (rule double_cert) simp_all
qed

lemma value_lunch_last:
  "predict_traffic_value ''kr_puram'' ''Friday'' 12 (1 - 1 / 2 ^ 53) = of_int 7955846236261581 / 2 ^ 41"
proof -
  have c2: "double 0.2
      = of_int 7205759403792794 / 2 ^ 55"
     by (rule double_cert) simp_all
  have c9: "double 0.9
      = of_int 8106479329266893 / 2 ^ 53"
     by (rule double_cert) simp_all
  have j1: "fmul (1 - 1 / 2 ^ 53) (double 0.2)
      = of_int 7205759403792793 / 2 ^ 55"
    unfolding c2 unfolding fmul_def by (rule double_cert) simp_all
  have j2: "fadd (double 0.9) (fmul (1 - 1 / 2 ^ 53) (double 0.2))
      = of_int 4953959590107546 / 2 ^ 52"
    unfolding j1 c9 unfolding fadd_def by (rule double_cert) simp_all
  have t: "fmul (traffic_raw ''kr_puram'' ''Friday'' 12) (fadd (double 0.9) (fmul (1 - 1 / 2 ^ 53) (double 0.2)))
      = of_int 7955846236261580 / 2 ^ 41"
    unfolding raw_kr_puram_friday_12 j2 unfolding fmul_def by (rule double_cert) simp_all
  have n: "round_half_even (of_int 7955846236261580 / 2 ^ 41 * 10 ^ 2) = 361790"
    by (rule round_half_even_near) simp_all
  show ?thesis
    unfolding predict_traffic_value_def Let_def t unfolding py_round_def n by (rule double_cert) simp_all
qed





lemma raw_silk_board_monday_8:
  "traffic_raw ''silk_board'' ''Monday'' 8 = of_int 5442582557491200 / 2 ^ 40"
proof -
  have b0: "dict_get base_traffic ''silk_board'' 1500 = 2500"
    by (simp add: dict_get_def base_traffic_def)
  have b: "float_of_int (dict_get base_traffic ''silk_board'' 1500)
      = of_int 5497558138880000 / 2 ^ 41"
    unfolding b0 float_of_int_def by (rule double_cert) simp_all
  have w0: "weekend_factor ''Monday'' = double 1.0" by (simp add: weekend_factor_def)
  have w: "weekend_factor ''Monday''
      = of_int 4503599627370496 / 2 ^ 52"
    unfolding w0 by (rule double_cert) simp_all
  have h0: "hour_multiplier 8 = double 1.8" by (simp add: hour_multiplier_def)
  have h: "hour_multiplier 8
      = of_int 8106479329266893 / 2 ^ 52"
    unfolding h0 by (rule double_cert) simp_all
  have d0: "day_factor ''Monday'' = double 1.1" by (simp add: day_factor_def)
  have d: "day_factor ''Monday''
      = of_int 4953959590107546 / 2 ^ 52"
    unfolding d0 by (rule double_cert) simp_all
  have r1: "fmul (float_of_int (dict_get base_traffic ''silk_board'' 1500)) (weekend_factor ''Monday'')
      = of_int 5497558138880000 / 2 ^ 41"
    unfolding b w unfolding fmul_def by (rule double_cert) simp_all
  have r2: "fmul (fmul (float_of_int (dict_get base_traffic ''silk_board'' 1500)) (weekend_factor ''Monday''))
      (hour_multiplier 8)
      = of_int 4947802324992000 / 2 ^ 40"
    unfolding r1 h unfolding fmul_def by (rule double_cert) simp_all
  show ?thesis
    unfolding traffic_raw_def r2 d unfolding fmul_def by (rule double_cert) simp_all
qed

lemma value_idle_8:
  "predict_traffic_value ''silk_board'' ''Monday'' 8 (1 / 2) = of_int 5442582557491200 / 2 ^ 40"
proof -
  have c2: "double 0.2
      = of_int 7205759403792794 / 2 ^ 55"
     by (rule double_cert) simp_all
  have c9: "double 0.9
      = of_int 8106479329266893 / 2 ^ 53"
     by (rule double_cert) simp_all
  have j1: "fmul (1 / 2) (double 0.2)
      = of_int 7205759403792794 / 2 ^ 56"
    unfolding c2 unfolding fmul_def by (rule double_cert) simp_all
  have j2: "fadd (double 0.9) (fmul (1 / 2) (double 0.2))
      = of_int 4503599627370496 / 2 ^ 52"
    unfolding j1 c9 unfolding fadd_def by (rule double_cert) simp_all
  have t: "fmul (traffic_raw ''silk_board'' ''Monday'' 8) (fadd (double 0.9) (fmul (1 / 2) (double 0.2)))
      = of_int 5442582557491200 / 2 ^ 40"
    unfolding raw_silk_board_monday_8 j2 unfolding fmul_def by (rule double_cert) simp_all
  have n: "round_half_even (of_int 5442582557491200 / 2 ^ 40 * 10 ^ 2) = 495000"
    by (rule round_half_even_near) simp_all
  show ?thesis
    unfolding predict_traffic_value_def Let_def t unfolding py_round_def n by (rule double_cert) simp_all
qed

lemma raw_silk_board_monday_9:
  "traffic_raw ''silk_board'' ''Monday'' 9 = of_int 5442582557491200 / 2 ^ 40"
proof -
  have b0: "dict_get base_traffic ''silk_board'' 1500 = 2500"
    by (simp add: dict_get_def base_traffic_def)
  have b: "float_of_int (dict_get base_traffic ''silk_board'' 1500)
      = of_int 5497558138880000 / 2 ^ 41"
    unfolding b0 float_of_int_def by (rule double_cert) simp_all
  have w0: "weekend_factor ''Monday'' = double 1.0" by (simp add: weekend_factor_def)
  have w: "weekend_factor ''Monday''
      = of_int 4503599627370496 / 2 ^ 52"
    unfolding w0 by (rule double_cert) simp_all
  have h0: "hour_multiplier 9 = double 1.8" by (simp add: hour_multiplier_def)
  have h: "hour_multiplier 9
      = of_int 8106479329266893 / 2 ^ 52"
    unfolding h0 by (rule double_cert) simp_all
  have d0: "day_factor ''Monday'' = double 1.1" by (simp add: day_factor_def)
  have d: "day_factor ''Monday''
      = of_int 4953959590107546 / 2 ^ 52"
    unfolding d0 by (rule double_cert) simp_all
  have r1: "fmul (float_of_int (dict_get base_traffic ''silk_board'' 1500)) (weekend_factor ''Monday'')
      = of_int 5497558138880000 / 2 ^ 41"
    unfolding b w unfolding fmul_def by (rule double_cert) simp_all
  have r2: "fmul (fmul (float_of_int (dict_get base_traffic ''silk_board'' 1500)) (weekend_factor ''Monday''))
      (hour_multiplier 9)
      = of_int 4947802324992000 / 2 ^ 40"
    unfolding r1 h unfolding fmul_def by (rule double_cert) simp_all
  show ?thesis
    unfolding traffic_raw_def r2 d unfolding fmul_def by (rule double_cert) simp_all
qed

lemma value_idle_9:
  "predict_traffic_value ''silk_board'' ''Monday'' 9 (1 / 2) = of_int 5442582557491200 / 2 ^ 40"
proof -
  have c2: "double 0.2
      = of_int 7205759403792794 / 2 ^ 55"
     by (rule double_cert) simp_all
  have c9: "double 0.9
      = of_int 8106479329266893 / 2 ^ 53"
     by (rule double_cert) simp_all
  have j1: "fmul (1 / 2) (double 0.2)
      = of_int 7205759403792794 / 2 ^ 56"
    unfolding c2 unfolding fmul_def by (rule double_cert) simp_all
  have j2: "fadd (double 0.9) (fmul (1 / 2) (double 0.2))
      = of_int 4503599627370496 / 2 ^ 52"
    unfolding j1 c9 unfolding fadd_def by (rule double_cert) simp_all
  have t: "fmul (traffic_raw ''silk_board'' ''Monday'' 9) (fadd (double 0.9) (fmul (1 / 2) (double 0.2)))
      = of_int 5442582557491200 / 2 ^ 40"
    unfolding raw_silk_board_monday_9 j2 unfolding fmul_def by (rule double_cert) simp_all
  have n: "round_half_even (of_int 5442582557491200 / 2 ^ 40 * 10 ^ 2) = 495000"
    by (rule round_half_even_near) simp_all
  show ?thesis
    unfolding predict_traffic_value_def Let_def t unfolding py_round_def n by (rule double_cert) simp_all
qed

lemma raw_silk_board_monday_10:
  "traffic_raw ''silk_board'' ''Monday'' 10 = of_int 5442582557491200 / 2 ^ 40"
proof -
  have b0: "dict_get base_traffic ''silk_board'' 1500 = 2500"
    by (simp add: dict_get_def base_traffic_def)
  have b: "float_of_int (dict_get base_traffic ''silk_board'' 1500)
      = of_int 5497558138880000 / 2 ^ 41"
    unfolding b0 float_of_int_def by (rule double_cert) simp_all
  have w0: "weekend_factor ''Monday'' = double 1.0" by (simp add: weekend_factor_def)
  have w: "weekend_factor ''Monday''
      = of_int 4503599627370496 / 2 ^ 52"
    unfolding w0 by (rule double_cert) simp_all
  have h0: "hour_multiplier 10 = double 1.8" by (simp add: hour_multiplier_def)
  have h: "hour_multiplier 10
      = of_int 8106479329266893 / 2 ^ 52"
    unfolding h0 by (rule double_cert) simp_all
  have d0: "day_factor ''Monday'' = double 1.1" by (simp add: day_factor_def)
  have d: "day_factor ''Monday''
      = of_int 4953959590107546 / 2 ^ 52"
    unfolding d0 by (rule double_cert) simp_all
  have r1: "fmul (float_of_int (dict_get base_traffic ''silk_board'' 1500)) (weekend_factor ''Monday'')
      = of_int 5497558138880000 / 2 ^ 41"
    unfolding b w unfolding fmul_def by (rule double_cert) simp_all
  have r2: "fmul (fmul (float_of_int (dict_get base_traffic ''silk_board'' 1500)) (weekend_factor ''Monday''))
      (hour_multiplier 10)
      = of_int 4947802324992000 / 2 ^ 40"
    unfolding r1 h unfolding fmul_def by (rule double_cert) simp_all
  show ?thesis
    unfolding traffic_raw_def r2 d unfolding fmul_def by (rule double_cert) simp_all
qed

lemma value_idle_10:
  "predict_traffic_value ''silk_board'' ''Monday'' 10 (1 / 2) = of_int 5442582557491200 / 2 ^ 40"
proof -
  have c2: "double 0.2
      = of_int 7205759403792794 / 2 ^ 55"
     by (rule double_cert) simp_all
  have c9: "double 0.9
      = of_int 8106479329266893 / 2 ^ 53"
     by (rule double_cert) simp_all
  have j1: "fmul (1 / 2) (double 0.2)
      = of_int 7205759403792794 / 2 ^ 56"
    unfolding c2 unfolding fmul_def by (rule double_cert) simp_all
  have j2: "fadd (double 0.9) (fmul (1 / 2) (double 0.2))
      = of_int 4503599627370496 / 2 ^ 52"
    unfolding j1 c9 unfolding fadd_def by (rule double_cert) simp_all
  have t: "fmul (traffic_raw ''silk_board'' ''Monday'' 10) (fadd (double 0.9) (fmul (1 / 2) (double 0.2)))
      = of_int 5442582557491200 / 2 ^ 40"
    unfolding raw_silk_board_monday_10 j2 unfolding fmul_def by (rule double_cert) simp_all
  have n: "round_half_even (of_int 5442582557491200 / 2 ^ 40 * 10 ^ 2) = 495000"
    by (rule round_half_even_near) simp_all
  show ?thesis
    unfolding predict_traffic_value_def Let_def t unfolding py_round_def n by (rule double_cert) simp_all
qed

lemma raw_silk_board_monday_11:
  "traffic_raw ''silk_board'' ''Monday'' 11 = of_int 6047313952768000 / 2 ^ 41"
proof -
  have b0: "dict_get base_traffic ''silk_board'' 1500 = 2500"
    by (simp add: dict_get_def base_traffic_def)
  have b: "float_of_int (dict_get base_traffic ''silk_board'' 1500)
      = of_int 5497558138880000 / 2 ^ 41"
    unfolding b0 float_of_int_def by (rule double_cert) simp_all
  have w0: "weekend_factor ''Monday'' = double 1.0" by (simp add: weekend_factor_def)
  have w: "weekend_factor ''Monday''
      = of_int 4503599627370496 / 2 ^ 52"
    unfolding w0 by (rule double_cert) simp_all
  have h0: "hour_multiplier 11 = double 1.0" by (simp add: hour_multiplier_def)
  have h: "hour_multiplier 11
      = of_int 4503599627370496 / 2 ^ 52"
    unfolding h0 by (rule double_cert) simp_all
  have d0: "day_factor ''Monday'' = double 1.1" by (simp add: day_factor_def)
  have d: "day_factor ''Monday''
      = of_int 4953959590107546 / 2 ^ 52"
    unfolding d0 by (rule double_cert) simp_all
  have r1: "fmul (float_of_int (dict_get base_traffic ''silk_board'' 1500)) (weekend_factor ''Monday'')
      = of_int 5497558138880000 / 2 ^ 41"
    unfolding b w unfolding fmul_def by (rule double_cert) simp_all
  have r2: "fmul (fmul (float_of_int (dict_get base_traffic ''silk_board'' 1500)) (weekend_factor ''Monday''))
      (hour_multiplier 11)
      = of_int 5497558138880000 / 2 ^ 41"
    unfolding r1 h unfolding fmul_def by (rule double_cert) simp_all
  show ?thesis
    unfolding traffic_raw_def r2 d unfolding fmul_def by (rule double_cert) simp_all
qed

lemma value_idle_11:
  "predict_traffic_value ''silk_board'' ''Monday'' 11 (1 / 2) = of_int 6047313952768000 / 2 ^ 41"
proof -
  have c2: "double 0.2
      = of_int 7205759403792794 / 2 ^ 55"
     by (rule double_cert) simp_all
  have c9: "double 0.9
      = of_int 8106479329266893 / 2 ^ 53"
     by (rule double_cert) simp_all
  have j1: "fmul (1 / 2) (double 0.2)
      = of_int 7205759403792794 / 2 ^ 56"
    unfolding c2 unfolding fmul_def by (rule double_cert) simp_all
  have j2: "fadd (double 0.9) (fmul (1 / 2) (double 0.2))
      = of_int 4503599627370496 / 2 ^ 52"
    unfolding j1 c9 unfolding fadd_def by (rule double_cert) simp_all
  have t: "fmul (traffic_raw ''silk_board'' ''Monday'' 11) (fadd (double 0.9) (fmul (1 / 2) (double 0.2)))
      = of_int 6047313952768000 / 2 ^ 41"
    unfolding raw_silk_board_monday_11 j2 unfolding fmul_def by (rule double_cert) simp_all
  have n: "round_half_even (of_int 6047313952768000 / 2 ^ 41 * 10 ^ 2) = 275000"
    by (rule round_half_even_near) simp_all
  show ?thesis
    unfolding predict_traffic_value_def Let_def t unfolding py_round_def n by (rule double_cert) simp_all
qed


subsection \<open>Claims about the signal generator and the classifier\<close>

text \<open>
  C1. For every place, day and hour, and with the jitter draw \<open>u\<close> as an input,
  \<open>predict_traffic_value\<close> returns \<open>round(raw * (0.9 + 0.2 * u), 2)\<close>, where \<open>raw\<close> is
  the product of the base of the place (2500, 2200, 1800, 2000, any other place 1500), the
  weekend multiplier (0.6 on Saturday and Sunday, else 1.0), the hour multiplier of the band
  table (1.8 for 8 to 10, 2.0 for 17 to 20, 1.3 for 12 to 14, 0.3 for 0 to 5, 0.5 for 22 and
  23, 1.0 for 6, 7, 11, 15, 16, 21) and the day multiplier (1.15 on Friday, 1.10 on
  Monday, else 1.0), all in float arithmetic. The rounding returns the double of a
  hundredth within 0.005 of the product with the jitter; at \<open>silk_board\<close>, Monday, hour 0
  and draw 0.125 the result is 763.13, at hour 17 and draw 0.78125 it is 5809.37.
\<close>

theorem predict_traffic_value_formula:
  "predict_traffic_value pl dy hr u = spec_generate pl dy hr u
 \<and> (\<exists>n. predict_traffic_value pl dy hr u = double (of_int n / 100)
       \<and> \<bar>of_int n / 100
            - fmul (spec_raw pl dy hr) (fadd (double 0.9) (fmul (double 0.2) u))\<bar> \<le> 1 / 200)
 \<and> predict_traffic_value ''silk_board'' ''Monday'' 0 (1 / 8) = double 763.13
 \<and> predict_traffic_value ''silk_board'' ''Monday'' 17 (25 / 32) = double 5809.37"
proof -
  have eq: "predict_traffic_value pl dy hr u = spec_generate pl dy hr u"
    by (simp add: predict_traffic_value_def spec_generate_def traffic_raw_eq_spec Let_def
        fmul_commute [of u])
  have "\<exists>n. py_round (fmul (spec_raw pl dy hr) (fadd (double 0.9) (fmul (double 0.2) u))) 2
          = double (of_int n / 100)
     \<and> \<bar>of_int n / 100
          - fmul (spec_raw pl dy hr) (fadd (double 0.9) (fmul (double 0.2) u))\<bar> \<le> 1 / 200"
    by (rule py_round_nearest)
  then have near: "\<exists>n. predict_traffic_value pl dy hr u = double (of_int n / 100)
       \<and> \<bar>of_int n / 100
            - fmul (spec_raw pl dy hr) (fadd (double 0.9) (fmul (double 0.2) u))\<bar> \<le> 1 / 200"
    unfolding eq spec_generate_def .
  have a: "predict_traffic_value ''silk_board'' ''Monday'' 0 (1 / 8) = double 763.13"
    unfolding value_night_eighth double_763_13 ..
  have b: "predict_traffic_value ''silk_board'' ''Monday'' 17 (25 / 32) = double 5809.37"
    unfolding value_evening double_5809_37 ..
  show ?thesis using eq near a b by blast
qed

text \<open>
  C2. The classifier is total, with exact boundaries: below 1500 Normal with rank 1, from
  1500 and below 2500 Moderate with rank 2, from 2500 High with rank 3; in particular
  1499.99 is Normal, 1500.00 Moderate, 2499.99 Moderate and 2500.00 High.
\<close>

theorem get_traffic_level_thresholds:
  "(v < 1500 \<longrightarrow>
      level (get_traffic_level v) = ''Normal'' \<and> level_severity (get_traffic_level v) = 1)
 \<and> (1500 \<le> v \<and> v < 2500 \<longrightarrow>
      level (get_traffic_level v) = ''Moderate'' \<and> level_severity (get_traffic_level v) = 2)
 \<and> (2500 \<le> v \<longrightarrow>
      level (get_traffic_level v) = ''High'' \<and> level_severity (get_traffic_level v) = 3)
 \<and> level (get_traffic_level 1499.99) = ''Normal''
 \<and> level (get_traffic_level 1500.00) = ''Moderate''
 \<and> level (get_traffic_level 2499.99) = ''Moderate''
 \<and> level (get_traffic_level 2500.00) = ''High''"
  by (simp add: get_traffic_level_def)

theorem get_traffic_level_thresholds_witness:
  "(1200 :: real) < 1500
 \<and> level (get_traffic_level 1200) = ''Normal'' \<and> level_severity (get_traffic_level 1200) = 1
 \<and> (1500 :: real) \<le> 1500 \<and> (1500 :: real) < 2500
 \<and> level (get_traffic_level 1500) = ''Moderate'' \<and> level_severity (get_traffic_level 1500) = 2
 \<and> (2500 :: real) \<le> 4950
 \<and> level (get_traffic_level 4950) = ''High'' \<and> level_severity (get_traffic_level 4950) = 3"
  using get_traffic_level_thresholds [of 1200] get_traffic_level_thresholds [of 1500]
    get_traffic_level_thresholds [of 4950]
  by simp

text \<open>
  C6. For every valid place, day and hour and every jitter draw, the returned value is not
  negative and lies within \<open>[0.9 * raw, 1.1 * raw]\<close>, \<open>raw\<close> being the product before the
  jitter. On floats this fails at the ends of the envelope: at \<open>kr_puram\<close>, Friday, hour 12
  the last draw below 1 gives a value above \<open>1.1 * raw\<close>, whether \<open>raw\<close> is the float
  of line 78 or the exact product 3289 and whether the bound is computed exactly or in
  floats; at \<open>silk_board\<close>, Monday, hour 0 the draw 0 gives 742.5, below 0.9 times the float
  \<open>raw\<close>.
\<close>

theorem envelope_counterexample:
  "0 \<le> (1 - 1 / 2 ^ 53 :: real) \<and> (1 - 1 / 2 ^ 53 :: real) < 1
 \<and> 1.1 * traffic_raw ''kr_puram'' ''Friday'' 12
       < predict_traffic_value ''kr_puram'' ''Friday'' 12 (1 - 1 / 2 ^ 53)
 \<and> fmul (double 1.1) (traffic_raw ''kr_puram'' ''Friday'' 12)
       < predict_traffic_value ''kr_puram'' ''Friday'' 12 (1 - 1 / 2 ^ 53)
 \<and> 1.1 * exact_raw ''kr_puram'' ''Friday'' 12
       < predict_traffic_value ''kr_puram'' ''Friday'' 12 (1 - 1 / 2 ^ 53)
 \<and> predict_traffic_value ''silk_board'' ''Monday'' 0 0
       < 0.9 * traffic_raw ''silk_board'' ''Monday'' 0"
proof -
  have bound: "fmul (double 1.1) (traffic_raw ''kr_puram'' ''Friday'' 12)
      = of_int 7955846236261580 / 2 ^ 41"
    unfolding raw_kr_puram_friday_12 double_1_1 unfolding fmul_def
    by (rule double_cert) simp_all
  have exact: "exact_raw ''kr_puram'' ''Friday'' 12 = 3289"
    by (simp add: exact_raw_def dict_get_def base_traffic_def exact_weekend_factor_def
        exact_hour_multiplier_def exact_day_factor_def)
  show ?thesis
    unfolding bound
    unfolding exact value_lunch_last raw_kr_puram_friday_12 value_night_zero
      raw_silk_board_monday_0
    by simp
qed

text \<open>
  C6, amended. For every place, day and hour and every jitter draw \<open>u\<close> in \<open>[0, 1)\<close> the
  returned value is not negative and lies within \<open>[0.9 * raw, 1.1 * raw]\<close> up to \<open>10 ^ -9\<close>,
  \<open>raw\<close> being the float product of line 78. It is the double of a hundredth that lies
  within the envelope of the exact product of the decimal constants.
\<close>

theorem predict_traffic_value_envelope:
  assumes "0 \<le> u" and "u < 1"
  shows "0 \<le> predict_traffic_value pl dy hr u
       \<and> 0.9 * traffic_raw pl dy hr - 1 / 10 ^ 9 \<le> predict_traffic_value pl dy hr u
       \<and> predict_traffic_value pl dy hr u \<le> 1.1 * traffic_raw pl dy hr + 1 / 10 ^ 9
       \<and> (\<exists>n. predict_traffic_value pl dy hr u = double (of_int n / 100)
             \<and> 0.9 * exact_raw pl dy hr \<le> of_int n / 100
             \<and> of_int n / 100 \<le> 1.1 * exact_raw pl dy hr)"
  using predict_traffic_value_near_envelope [OF assms, of pl dy hr]
    predict_traffic_value_hundredth [OF assms, of pl dy hr]
  by blast

theorem predict_traffic_value_envelope_witness:
  "(0 :: real) \<le> 1 / 3 \<and> (1 / 3 :: real) < 1
 \<and> 0 \<le> predict_traffic_value ''silk_board'' ''Monday'' 8 (1 / 3)
 \<and> 0.9 * traffic_raw ''silk_board'' ''Monday'' 8 - 1 / 10 ^ 9
      \<le> predict_traffic_value ''silk_board'' ''Monday'' 8 (1 / 3)
 \<and> predict_traffic_value ''silk_board'' ''Monday'' 8 (1 / 3)
      \<le> 1.1 * traffic_raw ''silk_board'' ''Monday'' 8 + 1 / 10 ^ 9"
  using predict_traffic_value_envelope [of "1 / 3" "''silk_board''" "''Monday''" 8]
  by simp

text \<open>
  C7. At every place and hour the product before the jitter of a Saturday or Sunday is at
  most (indeed below) that of any other day: the weekend multiplier is the float 0.6, while
  another day has weekend multiplier 1.0 and a day multiplier of at least 1.0.
\<close>

theorem weekend_raw_below_weekday:
  assumes "weekend \<in> {''Saturday'', ''Sunday''}" and "weekday \<notin> {''Saturday'', ''Sunday''}"
  shows "traffic_raw pl weekend hr \<le> traffic_raw pl weekday hr
       \<and> traffic_raw pl weekend hr < traffic_raw pl weekday hr
       \<and> weekend_factor weekend = double 0.6 \<and> \<bar>weekend_factor weekend - 0.6\<bar> \<le> 0.6 / 2 ^ 53
       \<and> weekend_factor weekday = 1.0
       \<and> 1.0 \<le> day_factor weekday"
proof -
  have lt: "traffic_raw pl weekend hr < traffic_raw pl weekday hr"
    using assms by (rule traffic_raw_weekend_below)
  have we: "weekend_factor weekend = double 0.6"
    using assms(1) by (auto simp: weekend_factor_def)
  have "\<bar>double 0.6 - 0.6\<bar> \<le> 0.6 * unit_roundoff" by (rule double_error) simp
  then have err: "\<bar>weekend_factor weekend - 0.6\<bar> \<le> 0.6 / 2 ^ 53"
    by (simp add: we unit_roundoff_def)
  have "weekend_factor weekday = double 1.0"
    using assms(2) by (simp add: weekend_factor_def)
  then have wd: "weekend_factor weekday = 1.0"
    unfolding double_1_0 by simp
  have "day_factor weekday \<in> {double 1.15, double 1.1, double 1.0}"
    by (simp add: day_factor_def)
  then have df: "1.0 \<le> day_factor weekday"
    unfolding double_1_15 double_1_1 double_1_0 by auto
  show ?thesis using lt we err wd df by simp
qed

theorem weekend_raw_below_weekday_witness:
  "''Saturday'' \<in> {''Saturday'', ''Sunday''} \<and> ''Friday'' \<notin> {''Saturday'', ''Sunday''}
 \<and> traffic_raw ''hebbal'' ''Saturday'' 18 \<le> traffic_raw ''hebbal'' ''Friday'' 18
 \<and> traffic_raw ''hebbal'' ''Saturday'' 18 < traffic_raw ''hebbal'' ''Friday'' 18"
  using weekend_raw_below_weekday [of "''Saturday''" "''Friday''" "''hebbal''" 18]
  by simp

subsection \<open>The loop, \<open>max\<close> and \<open>sum\<close>\<close>

lemma predict_hours_hour: "map hour (fst (predict_hours pl dy hs st)) = hs"
  by (induction hs arbitrary: st) (simp_all add: Let_def split_beta)

lemma predict_hours_db:
  "traffic_predictions (snd (predict_hours pl dy hs st)) = traffic_predictions st"
  by (induction hs arbitrary: st) (simp_all add: Let_def split_beta)

lemma predict_hours_calls:
  "generator_calls (snd (predict_hours pl dy hs st))
     = generator_calls st @ map (\<lambda>h. (pl, dy, h)) hs"
  by (induction hs arbitrary: st) (simp_all add: Let_def split_beta)

lemma predict_hours_severity:
  "p \<in> set (fst (predict_hours pl dy hs st))
     \<Longrightarrow> severity p = level_severity (get_traffic_level (traffic_value p))"
  by (induction hs arbitrary: st) (auto simp add: Let_def split_beta)

lemma max_from_first:
  "\<exists>ys zs. best # xs = ys @ max_from key best xs # zs
     \<and> (\<forall>y \<in> set ys. key y < key (max_from key best xs))
     \<and> (\<forall>z \<in> set zs. key z \<le> key (max_from key best xs))"
proof (induction xs arbitrary: best)
  case Nil
  have "[best] = [] @ best # []" by simp
  then show ?case by (metis empty_iff list.set(1) max_from.simps(1))
next
  case (Cons x xs)
  define b where "b = (if key best < key x then x else best)"
  define m where "m = max_from key b xs"
  have step: "max_from key best (x # xs) = m" by (simp add: m_def b_def)
  from Cons.IH [of b] obtain ys zs where dec: "b # xs = ys @ m # zs"
    and lt: "\<forall>y \<in> set ys. key y < key m" and le: "\<forall>z \<in> set zs. key z \<le> key m"
    unfolding m_def by blast
  have bm: "key b \<le> key m"
  proof (cases ys)
    case Nil
    with dec show ?thesis by simp
  next
    case (Cons y ys')
    with dec lt show ?thesis by auto
  qed
  show ?case
  proof (cases "key best < key x")
    case True
    then have b: "b = x" by (simp add: b_def)
    have "best # x # xs = (best # ys) @ m # zs" using dec b by simp
    moreover have "\<forall>y \<in> set (best # ys). key y < key m" using lt True bm b by auto
    ultimately show ?thesis unfolding step using le by blast
  next
    case False
    then have b: "b = best" by (simp add: b_def)
    show ?thesis
    proof (cases ys)
      case Nil
      with dec b have m: "m = best" and zs: "zs = xs" by simp_all
      have "best # x # xs = [] @ m # (x # zs)" using m zs by simp
      moreover have "\<forall>z \<in> set (x # zs). key z \<le> key m" using le False m by auto
      ultimately show ?thesis unfolding step by (metis empty_iff list.set(1))
    next
      case (Cons y ys')
      with dec b have y: "y = best" and xs: "xs = ys' @ m # zs" by simp_all
      have "key best < key m" using lt Cons y by simp
      then have "key x < key m" using False by simp
      then have "\<forall>y \<in> set (best # x # ys'). key y < key m" using lt Cons y by auto
      moreover have "best # x # xs = (best # x # ys') @ m # zs" using xs by simp
      ultimately show ?thesis unfolding step using le by blast
    qed
  qed
qed

lemma py_max_first:
  assumes "xs \<noteq> []"
  shows "\<exists>m ys zs. py_max key xs = Inr m \<and> xs = ys @ m # zs
     \<and> (\<forall>y \<in> set ys. key y < key m) \<and> (\<forall>z \<in> set zs. key z \<le> key m)"
proof -
  from assms obtain x rest where xs: "xs = x # rest" by (cases xs) auto
  from max_from_first [of x rest key] show ?thesis
    unfolding xs py_max_def by auto
qed

lemma py_range_upto: "py_range a (b + 1) = [a..b]"
  by (simp add: py_range_def)

subsection \<open>The paths through the handler\<close>

lemma predict_traffic_range_Inr:
  assumes "predict_traffic_range uid now st r = (Inr resp, st')"
  shows "\<exists>pl loc peak preds st1.
      pl = str_replace (str_lower (req_place r)) CHR '' '' CHR ''_''
    \<and> pl \<in> set (map fst TRAFFIC_LOCATIONS) \<and> req_day r \<in> set DAYS_OF_WEEK
    \<and> start_hour r \<le> end_hour r
    \<and> map_of TRAFFIC_LOCATIONS pl = Some loc
    \<and> predict_hours pl (req_day r) [start_hour r..end_hour r] st = (preds, st1)
    \<and> py_max traffic_value preds = Inr peak
    \<and> preds \<noteq> []
    \<and> resp = \<lparr>place = pl, place_name = loc_name loc,
               latitude = loc_latitude loc, longitude = loc_longitude loc,
               day = req_day r, predictions = preds,
               peak_hour = hour peak, peak_traffic = traffic_value peak,
               average_traffic = py_round (fdiv (py_sum (map traffic_value preds))
                                   (float_of_int (int (length preds)))) 2,
               insight = spec_buildInsight peak\<rparr>
    \<and> st' = st1\<lparr>traffic_predictions := traffic_predictions st1 @
               [\<lparr>doc_id = uid, doc_place = pl, doc_day = req_day r,
                 doc_start_hour = start_hour r, doc_end_hour = end_hour r,
                 doc_peak_hour = hour peak, doc_peak_traffic = traffic_value peak,
                 doc_timestamp = now\<rparr>]\<rparr>"
  using assms unfolding predict_traffic_range_def Let_def py_range_upto spec_buildInsight_def
  by (auto split: if_splits option.splits sum.splits prod.splits)

lemma predict_traffic_range_valid:
  assumes pl: "request_place r \<in> set (map fst TRAFFIC_LOCATIONS)"
    and dy: "req_day r \<in> set DAYS_OF_WEEK"
    and rg: "start_hour r \<le> end_hour r"
  shows "\<exists>resp st'. predict_traffic_range uid now st r = (Inr resp, st')"
proof -
  define run where
    "run = predict_hours (request_place r) (req_day r) [start_hour r..end_hour r] st"
  have "map hour (fst run) = [start_hour r..end_hour r]"
    unfolding run_def by (rule predict_hours_hour)
  moreover have "[start_hour r..end_hour r] \<noteq> []" using rg by (simp add: upto.simps)
  ultimately have ne: "fst run \<noteq> []" by auto
  then obtain peak where peak: "py_max traffic_value (fst run) = Inr peak"
    using py_max_first [of "fst run" traffic_value] by blast
  from pl obtain loc where loc: "map_of TRAFFIC_LOCATIONS (request_place r) = Some loc"
    by (metis map_of_eq_None_iff not_Some_eq set_map)
  show ?thesis
    using pl dy rg loc peak ne
    unfolding predict_traffic_range_def Let_def py_range_upto run_def [symmetric]
    by (simp add: split_beta)
qed

lemma locations_message:
  "''Invalid location. Supported locations: '' @ repr_str_list (map fst TRAFFIC_LOCATIONS)
     = ''Invalid location. Supported locations: ['silk_board', 'kr_puram', 'whitefield', 'hebbal']''"
  by (simp add: repr_str_list_def repr_str_def TRAFFIC_LOCATIONS_def)

lemma days_message:
  "''Invalid day. Supported days: '' @ repr_str_list DAYS_OF_WEEK
     = ''Invalid day. Supported days: ['Monday', 'Tuesday', 'Wednesday', 'Thursday', 'Friday', 'Saturday', 'Sunday']''"
  by (simp add: repr_str_list_def repr_str_def DAYS_OF_WEEK_def)

lemma predict_traffic_range_bad_place:
  assumes "request_place r \<notin> set (map fst TRAFFIC_LOCATIONS)"
  shows "predict_traffic_range uid now st r =
    (Inl (HTTPException 400
      ''Invalid location. Supported locations: ['silk_board', 'kr_puram', 'whitefield', 'hebbal']''), st)"
  using assms unfolding predict_traffic_range_def Let_def locations_message by simp

lemma predict_traffic_range_bad_day:
  assumes "request_place r \<in> set (map fst TRAFFIC_LOCATIONS)" "req_day r \<notin> set DAYS_OF_WEEK"
  shows "predict_traffic_range uid now st r =
    (Inl (HTTPException 400
      ''Invalid day. Supported days: ['Monday', 'Tuesday', 'Wednesday', 'Thursday', 'Friday', 'Saturday', 'Sunday']''), st)"
  using assms unfolding predict_traffic_range_def Let_def days_message by simp

lemma predict_traffic_range_bad_range:
  assumes "request_place r \<in> set (map fst TRAFFIC_LOCATIONS)" "req_day r \<in> set DAYS_OF_WEEK"
    "end_hour r < start_hour r"
  shows "predict_traffic_range uid now st r =
    (Inl (HTTPException 400 ''End hour must be greater than or equal to start hour''), st)"
  using assms unfolding predict_traffic_range_def Let_def by simp

lemma validate_in_range:
  "TrafficPredictionRequest_validate body =
     (if 0 \<le> start_hour body \<and> start_hour body \<le> 23 \<and> 0 \<le> end_hour body \<and> end_hour body \<le> 23
      then Inr body
      else Inl (RequestValidationError
             ((if 0 \<le> start_hour body \<and> start_hour body \<le> 23 then [] else [''start_hour''])
            @ (if 0 \<le> end_hour body \<and> end_hour body \<le> 23 then [] else [''end_hour'']))))"
  by (simp add: TrafficPredictionRequest_validate_def Let_def)

lemma predict_traffic_range_calls:
  "\<exists>hs. generator_calls (snd (predict_traffic_range uid now st r))
          = generator_calls st @ map (\<lambda>h. (request_place r, req_day r, h)) hs
      \<and> set hs \<subseteq> {start_hour r..end_hour r}"
proof (cases "request_place r \<in> set (map fst TRAFFIC_LOCATIONS) \<and> req_day r \<in> set DAYS_OF_WEEK
    \<and> start_hour r \<le> end_hour r")
  case False
  then have "snd (predict_traffic_range uid now st r) = st"
    using predict_traffic_range_bad_place [of r uid now st]
      predict_traffic_range_bad_day [of r uid now st]
      predict_traffic_range_bad_range [of r uid now st]
    by (cases "request_place r \<in> set (map fst TRAFFIC_LOCATIONS)";
        cases "req_day r \<in> set DAYS_OF_WEEK") auto
  then have "generator_calls (snd (predict_traffic_range uid now st r))
          = generator_calls st @ map (\<lambda>h. (request_place r, req_day r, h)) []" by simp
  then show ?thesis by (metis empty_set empty_subsetI)
next
  case True
  then obtain resp st' where run: "predict_traffic_range uid now st r = (Inr resp, st')"
    using predict_traffic_range_valid [of r uid now st] by blast
  from predict_traffic_range_Inr [OF run]
  obtain preds st1 d where
    ph: "predict_hours (request_place r) (req_day r) [start_hour r..end_hour r] st = (preds, st1)"
    and st': "st' = st1\<lparr>traffic_predictions := traffic_predictions st1 @ [d]\<rparr>"
    by auto
  have "generator_calls st1 = generator_calls st
      @ map (\<lambda>h. (request_place r, req_day r, h)) [start_hour r..end_hour r]"
    using predict_hours_calls
      [of "request_place r" "req_day r" "[start_hour r..end_hour r]" st]
    by (simp add: ph)
  then have "generator_calls (snd (predict_traffic_range uid now st r)) = generator_calls st
      @ map (\<lambda>h. (request_place r, req_day r, h)) [start_hour r..end_hour r]"
    by (simp add: run st')
  moreover have "set [start_hour r..end_hour r] \<subseteq> {start_hour r..end_hour r}" by simp
  ultimately show ?thesis by blast
qed

lemma hour_multiplier_default:
  "0 \<le> h \<Longrightarrow> h \<le> 23 \<Longrightarrow> hour_multiplier h = 1 \<Longrightarrow> h \<in> {6, 7, 11, 15, 16, 21}"
  unfolding hour_multiplier_def double_1_8 double_2_0 double_1_3 double_0_3 double_0_5 double_1_0
  by (simp split: if_splits; presburger)

lemma predict_traffic_range_cong:
  assumes "request_place r1 = request_place r2" and "req_day r1 = req_day r2"
    and "start_hour r1 = start_hour r2" and "end_hour r1 = end_hour r2"
  shows "predict_traffic_range uid now st r1 = predict_traffic_range uid now st r2"
  unfolding predict_traffic_range_def assms ..

subsection \<open>Claims about the routes\<close>



text \<open>
  C4. The handler fails exactly when the normalised place is not a location, or the day is
  not one of the seven days, or \<open>end_hour < start_hour\<close>. Every failure is a client error
  (status 400) and leaves the state, hence the collection of audit records, unchanged. The
  message names what is wrong and, for place and day, lists the valid values.
\<close>

theorem predict_traffic_range_client_errors:
  "((\<exists>e. fst (predict_traffic_range uid now st r) = Inl e)
      \<longleftrightarrow> (request_place r \<notin> set (map fst TRAFFIC_LOCATIONS)
           \<or> req_day r \<notin> set DAYS_OF_WEEK \<or> end_hour r < start_hour r))
 \<and> (\<forall>e. fst (predict_traffic_range uid now st r) = Inl e
        \<longrightarrow> status_code e = 400 \<and> snd (predict_traffic_range uid now st r) = st)
 \<and> (request_place r \<notin> set (map fst TRAFFIC_LOCATIONS)
        \<longrightarrow> fst (predict_traffic_range uid now st r) = Inl (HTTPException 400
              ''Invalid location. Supported locations: ['silk_board', 'kr_puram', 'whitefield', 'hebbal']''))
 \<and> (request_place r \<in> set (map fst TRAFFIC_LOCATIONS) \<and> req_day r \<notin> set DAYS_OF_WEEK
        \<longrightarrow> fst (predict_traffic_range uid now st r) = Inl (HTTPException 400
              ''Invalid day. Supported days: ['Monday', 'Tuesday', 'Wednesday', 'Thursday', 'Friday', 'Saturday', 'Sunday']''))
 \<and> (request_place r \<in> set (map fst TRAFFIC_LOCATIONS) \<and> req_day r \<in> set DAYS_OF_WEEK
      \<and> end_hour r < start_hour r
        \<longrightarrow> fst (predict_traffic_range uid now st r) = Inl (HTTPException 400
              ''End hour must be greater than or equal to start hour''))"
proof (cases "request_place r \<in> set (map fst TRAFFIC_LOCATIONS)")
  case False
  from predict_traffic_range_bad_place [OF False, of uid now st] show ?thesis
    using False by simp
next
  case pl: True
  show ?thesis
  proof (cases "req_day r \<in> set DAYS_OF_WEEK")
    case False
    from predict_traffic_range_bad_day [OF pl False, of uid now st] show ?thesis
      using pl False by simp
  next
    case dy: True
    show ?thesis
    proof (cases "end_hour r < start_hour r")
      case True
      from predict_traffic_range_bad_range [OF pl dy True, of uid now st] show ?thesis
        using pl dy True by simp
    next
      case False
      then have "start_hour r \<le> end_hour r" by simp
      from predict_traffic_range_valid [OF pl dy this, of uid now st]
      obtain resp st' where "predict_traffic_range uid now st r = (Inr resp, st')" by blast
      then show ?thesis using pl dy False by simp
    qed
  qed
qed

theorem predict_traffic_range_client_errors_witness:
  "request_place invalid_location_request \<notin> set (map fst TRAFFIC_LOCATIONS)
 \<and> fst (predict_traffic_range ''id'' ''ts'' idle_state invalid_location_request)
     = Inl (HTTPException 400
         ''Invalid location. Supported locations: ['silk_board', 'kr_puram', 'whitefield', 'hebbal']'')
 \<and> snd (predict_traffic_range ''id'' ''ts'' idle_state invalid_location_request) = idle_state
 \<and> request_place invalid_day_request \<in> set (map fst TRAFFIC_LOCATIONS)
 \<and> req_day invalid_day_request \<notin> set DAYS_OF_WEEK
 \<and> fst (predict_traffic_range ''id'' ''ts'' idle_state invalid_day_request)
     = Inl (HTTPException 400
         ''Invalid day. Supported days: ['Monday', 'Tuesday', 'Wednesday', 'Thursday', 'Friday', 'Saturday', 'Sunday']'')
 \<and> snd (predict_traffic_range ''id'' ''ts'' idle_state invalid_day_request) = idle_state
 \<and> request_place invalid_hour_range_request \<in> set (map fst TRAFFIC_LOCATIONS)
 \<and> req_day invalid_hour_range_request \<in> set DAYS_OF_WEEK
 \<and> end_hour invalid_hour_range_request < start_hour invalid_hour_range_request
 \<and> fst (predict_traffic_range ''id'' ''ts'' idle_state invalid_hour_range_request)
     = Inl (HTTPException 400 ''End hour must be greater than or equal to start hour'')
 \<and> snd (predict_traffic_range ''id'' ''ts'' idle_state invalid_hour_range_request) = idle_state"
proof -
  have a: "request_place invalid_location_request \<notin> set (map fst TRAFFIC_LOCATIONS)"
    by (simp add: invalid_location_request_def str_lower_def str_replace_def
        TRAFFIC_LOCATIONS_def)
  have b: "request_place invalid_day_request \<in> set (map fst TRAFFIC_LOCATIONS)"
    "req_day invalid_day_request \<notin> set DAYS_OF_WEEK"
    by (simp_all add: invalid_day_request_def str_lower_def str_replace_def
        TRAFFIC_LOCATIONS_def DAYS_OF_WEEK_def)
  have c: "request_place invalid_hour_range_request \<in> set (map fst TRAFFIC_LOCATIONS)"
    "req_day invalid_hour_range_request \<in> set DAYS_OF_WEEK"
    "end_hour invalid_hour_range_request < start_hour invalid_hour_range_request"
    by (simp_all add: invalid_hour_range_request_def str_lower_def str_replace_def
        TRAFFIC_LOCATIONS_def DAYS_OF_WEEK_def)
  show ?thesis
    using a b c
      predict_traffic_range_client_errors [of "''id''" "''ts''" idle_state invalid_location_request]
      predict_traffic_range_client_errors [of "''id''" "''ts''" idle_state invalid_day_request]
      predict_traffic_range_client_errors [of "''id''" "''ts''" idle_state invalid_hour_range_request]
    by simp
qed

text \<open>
  C5. The insight of a report is a function of the peak prediction alone: it is
  \<open>spec_buildInsight\<close> of the peak, whose tier is that of the peak value. Tier 3 gives the
  message that names the peak hour and advises alternative routes or a delay of 1-2 hours,
  tier 2 the message that names the peak hour and advises buffer time, tier 1 a fixed
  message about favourable conditions, in which no hour occurs.
\<close>

theorem insight_from_peak:
  assumes "predict_traffic_range uid now st r = (Inr resp, st')"
  shows "\<exists>peak \<in> set (predictions resp).
       hour peak = peak_hour resp \<and> traffic_value peak = peak_traffic resp
     \<and> severity peak = level_severity (get_traffic_level (peak_traffic resp))
     \<and> severity peak \<in> {1, 2, 3}
     \<and> insight resp = spec_buildInsight peak
     \<and> (severity peak = 3 \<longrightarrow> insight resp =
           ''Peak congestion expected at '' @ str_int (peak_hour resp)
             @ '':00. Consider alternative routes or delay travel by 1-2 hours.'')
     \<and> (severity peak = 2 \<longrightarrow> insight resp =
           ''Moderate traffic expected. '' @ str_int (peak_hour resp)
             @ '':00 shows highest activity. Plan buffer time.'')
     \<and> (severity peak = 1 \<longrightarrow> insight resp =
           ''Traffic conditions are favorable. Smooth commute expected throughout the selected time range.'')"
proof -
  from predict_traffic_range_Inr [OF assms]
  obtain peak preds st1 where
    ph: "predict_hours (request_place r) (req_day r) [start_hour r..end_hour r] st = (preds, st1)"
    and mx: "py_max traffic_value preds = Inr peak" and ne: "preds \<noteq> []"
    and p: "predictions resp = preds"
    and pk: "peak_hour resp = hour peak" "peak_traffic resp = traffic_value peak"
    and ins: "insight resp = spec_buildInsight peak"
    by auto
  from py_max_first [OF ne, of traffic_value] mx
  have mem: "peak \<in> set preds" by auto
  then have "peak \<in> set (fst (predict_hours (request_place r) (req_day r)
      [start_hour r..end_hour r] st))" by (simp add: ph)
  then have sev: "severity peak = level_severity (get_traffic_level (traffic_value peak))"
    by (rule predict_hours_severity)
  then have tier: "severity peak \<in> {1, 2, 3}" by (simp add: get_traffic_level_def)
  show ?thesis
  proof (rule bexI [where x = peak])
    show "peak \<in> set (predictions resp)" using mem p by simp
  next
    show "hour peak = peak_hour resp \<and> traffic_value peak = peak_traffic resp
     \<and> severity peak = level_severity (get_traffic_level (peak_traffic resp))
     \<and> severity peak \<in> {1, 2, 3}
     \<and> insight resp = spec_buildInsight peak
     \<and> (severity peak = 3 \<longrightarrow> insight resp =
           ''Peak congestion expected at '' @ str_int (peak_hour resp)
             @ '':00. Consider alternative routes or delay travel by 1-2 hours.'')
     \<and> (severity peak = 2 \<longrightarrow> insight resp =
           ''Moderate traffic expected. '' @ str_int (peak_hour resp)
             @ '':00 shows highest activity. Plan buffer time.'')
     \<and> (severity peak = 1 \<longrightarrow> insight resp =
           ''Traffic conditions are favorable. Smooth commute expected throughout the selected time range.'')"
      using pk ins sev tier by (simp add: spec_buildInsight_def)
  qed
qed

theorem insight_from_peak_witness:
  "predict_traffic_range ''id'' ''ts'' idle_state valid_request
     = (Inr (projr (fst (predict_traffic_range ''id'' ''ts'' idle_state valid_request))),
        snd (predict_traffic_range ''id'' ''ts'' idle_state valid_request))
 \<and> peak_hour (projr (fst (predict_traffic_range ''id'' ''ts'' idle_state valid_request))) = 8
 \<and> peak_traffic (projr (fst (predict_traffic_range ''id'' ''ts'' idle_state valid_request))) = 4950
 \<and> insight (projr (fst (predict_traffic_range ''id'' ''ts'' idle_state valid_request)))
     = ''Peak congestion expected at 8:00. Consider alternative routes or delay travel by 1-2 hours.''"
proof -
  have h1: "request_place valid_request \<in> set (map fst TRAFFIC_LOCATIONS)"
    by (simp add: valid_request_def str_lower_def str_replace_def TRAFFIC_LOCATIONS_def)
  have h2: "req_day valid_request \<in> set DAYS_OF_WEEK"
    by (simp add: valid_request_def DAYS_OF_WEEK_def)
  have h4: "start_hour valid_request \<le> end_hour valid_request" by (simp add: valid_request_def)
  have s: "start_hour valid_request = 8" and e: "end_hour valid_request = 11"
    by (simp_all add: valid_request_def)
  have pl: "request_place valid_request = ''silk_board''"
    by (simp add: valid_request_def str_lower_def str_replace_def)
  have dy: "req_day valid_request = ''Monday''" by (simp add: valid_request_def)
  have upt: "[8..11] = [8, 9, 10, 11::int]" by simp
  from predict_traffic_range_valid [OF h1 h2 h4, of "''id''" "''ts''" idle_state]
  obtain resp st' where
    run: "predict_traffic_range ''id'' ''ts'' idle_state valid_request = (Inr resp, st')"
    by blast
  from predict_traffic_range_Inr [OF run]
  obtain peak preds st1 where
    ph: "predict_hours (request_place valid_request) (req_day valid_request)
           [start_hour valid_request..end_hour valid_request] idle_state = (preds, st1)"
    and mx: "py_max traffic_value preds = Inr peak"
    and pk: "peak_hour resp = hour peak" "peak_traffic resp = traffic_value peak"
    by auto
  have ev: "fst (predict_hours ''silk_board'' ''Monday'' [8, 9, 10, 11] idle_state)
      = [\<lparr>hour = 8, traffic_value = 4950, traffic_level = ''High'', color = ''#EF4444'',
          severity = 3\<rparr>,
         \<lparr>hour = 9, traffic_value = 4950, traffic_level = ''High'', color = ''#EF4444'',
          severity = 3\<rparr>,
         \<lparr>hour = 10, traffic_value = 4950, traffic_level = ''High'', color = ''#EF4444'',
          severity = 3\<rparr>,
         \<lparr>hour = 11, traffic_value = 2750, traffic_level = ''High'', color = ''#EF4444'',
          severity = 3\<rparr>]"
    by (simp add: idle_state_def random_random_def Let_def split_beta get_traffic_level_def
        value_idle_8 value_idle_9 value_idle_10 value_idle_11)
  have preds: "preds = fst (predict_hours ''silk_board'' ''Monday'' [8, 9, 10, 11] idle_state)"
    using ph unfolding pl dy s e upt by (simp del: predict_hours.simps)
  have peak: "hour peak = 8" "traffic_value peak = 4950"
    using mx unfolding preds ev by (auto simp add: py_max_def)
  define r where
    "r = projr (fst (predict_traffic_range ''id'' ''ts'' idle_state valid_request))"
  have r: "r = resp" unfolding r_def run by simp
  have run': "predict_traffic_range ''id'' ''ts'' idle_state valid_request
     = (Inr r, snd (predict_traffic_range ''id'' ''ts'' idle_state valid_request))"
    unfolding r run by simp
  have pk': "peak_hour r = 8" "peak_traffic r = 4950"
    unfolding r pk peak by simp_all
  have "insight r = ''Peak congestion expected at '' @ str_int 8
             @ '':00. Consider alternative routes or delay travel by 1-2 hours.''"
    using insight_from_peak [OF run'] by (auto simp: pk' get_traffic_level_def)
  moreover have "str_int 8 = ''8''" by code_simp
  ultimately show ?thesis using run' pk' unfolding r_def by simp
qed

text \<open>
  C8. \<open>GET /days\<close> returns the list of the seven weekday names, Monday first, as a list.
  This is not what the route does: its body is an object with the single key \<open>days\<close>,
  and the list is the value of that key.
\<close>

theorem get_days_not_a_list:
  "get_days \<noteq> JArray (map JString
     [''Monday'', ''Tuesday'', ''Wednesday'', ''Thursday'', ''Friday'', ''Saturday'', ''Sunday''])"
  by (simp add: get_days_def)

text \<open>
  C8, amended. \<open>GET /days\<close> returns an object with the single key \<open>days\<close>, whose value
  is the list of the seven weekday names in the order Monday, Tuesday, Wednesday, Thursday,
  Friday, Saturday, Sunday.
\<close>

theorem get_days_object:
  "get_days = JObject [(''days'', JArray (map JString
     [''Monday'', ''Tuesday'', ''Wednesday'', ''Thursday'', ''Friday'', ''Saturday'', ''Sunday'']))]"
  by (simp add: get_days_def DAYS_OF_WEEK_def)

text \<open>
  C9. The handler lowercases the requested place and replaces every space with an
  underscore before it validates. Two requests that differ only in places with the same
  normal form are answered alike; the place of a report is the normal form, not what the
  client sent; a request for \<open>Silk Board\<close> with a valid day and range is accepted and
  answered as \<open>silk_board\<close>.
\<close>

theorem place_is_normalized:
  "(str_replace (str_lower p1) CHR '' '' CHR ''_'' = str_replace (str_lower p2) CHR '' '' CHR ''_''
      \<longrightarrow> predict_traffic_range uid now st (r\<lparr>req_place := p1\<rparr>)
          = predict_traffic_range uid now st (r\<lparr>req_place := p2\<rparr>))
 \<and> (predict_traffic_range uid now st r = (Inr resp, st')
      \<longrightarrow> place resp = str_replace (str_lower (req_place r)) CHR '' '' CHR ''_'')
 \<and> (req_place r = ''Silk Board'' \<and> req_day r \<in> set DAYS_OF_WEEK \<and> start_hour r \<le> end_hour r
      \<longrightarrow> (\<exists>resp st'. predict_traffic_range uid now st r = (Inr resp, st')
             \<and> place resp = ''silk_board'' \<and> place resp \<noteq> req_place r))"
proof (intro conjI impI)
  assume "str_replace (str_lower p1) CHR '' '' CHR ''_'' = str_replace (str_lower p2) CHR '' '' CHR ''_''"
  then show "predict_traffic_range uid now st (r\<lparr>req_place := p1\<rparr>)
          = predict_traffic_range uid now st (r\<lparr>req_place := p2\<rparr>)"
    by (intro predict_traffic_range_cong) simp_all
next
  assume "predict_traffic_range uid now st r = (Inr resp, st')"
  from predict_traffic_range_Inr [OF this]
  show "place resp = str_replace (str_lower (req_place r)) CHR '' '' CHR ''_''" by auto
next
  assume a: "req_place r = ''Silk Board'' \<and> req_day r \<in> set DAYS_OF_WEEK \<and> start_hour r \<le> end_hour r"
  then have n: "request_place r = ''silk_board''" by (simp add: str_lower_def str_replace_def)
  then have "request_place r \<in> set (map fst TRAFFIC_LOCATIONS)"
    by (simp add: TRAFFIC_LOCATIONS_def)
  from predict_traffic_range_valid [OF this, of uid now st] a
  obtain resp st' where run: "predict_traffic_range uid now st r = (Inr resp, st')" by blast
  from predict_traffic_range_Inr [OF run] have "place resp = request_place r" by auto
  with run n a show "\<exists>resp st'. predict_traffic_range uid now st r = (Inr resp, st')
             \<and> place resp = ''silk_board'' \<and> place resp \<noteq> req_place r" by auto
qed

theorem place_is_normalized_witness:
  "str_replace (str_lower ''Silk Board'') CHR '' '' CHR ''_''
     = str_replace (str_lower ''silk_board'') CHR '' '' CHR ''_''
 \<and> predict_traffic_range ''id'' ''ts'' idle_state (valid_request\<lparr>req_place := ''Silk Board''\<rparr>)
     = predict_traffic_range ''id'' ''ts'' idle_state (valid_request\<lparr>req_place := ''silk_board''\<rparr>)
 \<and> req_place (valid_request\<lparr>req_place := ''Silk Board''\<rparr>) = ''Silk Board''
 \<and> req_day (valid_request\<lparr>req_place := ''Silk Board''\<rparr>) \<in> set DAYS_OF_WEEK
 \<and> start_hour (valid_request\<lparr>req_place := ''Silk Board''\<rparr>)
       \<le> end_hour (valid_request\<lparr>req_place := ''Silk Board''\<rparr>)
 \<and> (\<exists>resp st'.
       predict_traffic_range ''id'' ''ts'' idle_state (valid_request\<lparr>req_place := ''Silk Board''\<rparr>)
         = (Inr resp, st')
     \<and> place resp = ''silk_board'')"
proof -
  have n: "str_replace (str_lower ''Silk Board'') CHR '' '' CHR ''_''
     = str_replace (str_lower ''silk_board'') CHR '' '' CHR ''_''"
    by (simp add: str_lower_def str_replace_def)
  have v: "req_place (valid_request\<lparr>req_place := ''Silk Board''\<rparr>) = ''Silk Board''"
    "req_day (valid_request\<lparr>req_place := ''Silk Board''\<rparr>) \<in> set DAYS_OF_WEEK"
    "start_hour (valid_request\<lparr>req_place := ''Silk Board''\<rparr>)
       \<le> end_hour (valid_request\<lparr>req_place := ''Silk Board''\<rparr>)"
    by (simp_all add: valid_request_def DAYS_OF_WEEK_def)
  show ?thesis
    using n v
      place_is_normalized [of "''Silk Board''" "''silk_board''" "''id''" "''ts''" idle_state
        valid_request]
      place_is_normalized [of _ _ "''id''" "''ts''" idle_state
        "valid_request\<lparr>req_place := ''Silk Board''\<rparr>"]
    by blast
qed

text \<open>
  C10. The request model bounds both hours by 0 and 23: a body with an hour outside is
  rejected with a validation error before the handler runs, the state unchanged. Whatever
  the body, every call of the signal generator made while it is served has an hour in
  \<open>[0, 23]\<close>; so the default multiplier 1.0 is only ever taken for the hours 6, 7, 11, 15,
  16 and 21, never for an hour outside the day.
\<close>

theorem request_model_bounds_hours:
  "(\<not> (0 \<le> start_hour body \<and> start_hour body \<le> 23 \<and> 0 \<le> end_hour body \<and> end_hour body \<le> 23)
      \<longrightarrow> (\<exists>names. names \<noteq> []
             \<and> post_predict_traffic uid now st body = (Inl (RequestValidationError names), st)))
 \<and> (\<exists>calls. generator_calls (snd (post_predict_traffic uid now st body))
                = generator_calls st @ calls
           \<and> (\<forall>(p, d, h) \<in> set calls. 0 \<le> h \<and> h \<le> 23
                  \<and> (hour_multiplier h = 1 \<longrightarrow> h \<in> {6, 7, 11, 15, 16, 21})))"
proof (cases "0 \<le> start_hour body \<and> start_hour body \<le> 23 \<and> 0 \<le> end_hour body \<and> end_hour body \<le> 23")
  case False
  then have "\<exists>names. names \<noteq> []
      \<and> post_predict_traffic uid now st body = (Inl (RequestValidationError names), st)"
    unfolding post_predict_traffic_def validate_in_range by auto
  moreover from this have "generator_calls (snd (post_predict_traffic uid now st body))
                = generator_calls st @ []" by auto
  ultimately show ?thesis using False by (metis (mono_tags, lifting) empty_iff empty_set)
next
  case True
  then have eq: "post_predict_traffic uid now st body = predict_traffic_range uid now st body"
    unfolding post_predict_traffic_def validate_in_range by simp
  from predict_traffic_range_calls [of uid now st body]
  obtain hs where hs: "generator_calls (snd (predict_traffic_range uid now st body))
          = generator_calls st @ map (\<lambda>h. (request_place body, req_day body, h)) hs"
    and sub: "set hs \<subseteq> {start_hour body..end_hour body}" by blast
  have "\<forall>(p, d, h) \<in> set (map (\<lambda>h. (request_place body, req_day body, h)) hs).
      0 \<le> h \<and> h \<le> 23 \<and> (hour_multiplier h = 1 \<longrightarrow> h \<in> {6, 7, 11, 15, 16, 21})"
  proof -
    have "\<And>h. h \<in> set hs \<Longrightarrow> 0 \<le> h \<and> h \<le> 23" using sub True by auto
    then show ?thesis using hour_multiplier_default by auto
  qed
  with hs eq True show ?thesis by auto
qed

theorem request_model_bounds_hours_witness:
  "\<not> (0 \<le> start_hour (valid_request\<lparr>end_hour := 24\<rparr>)
      \<and> start_hour (valid_request\<lparr>end_hour := 24\<rparr>) \<le> 23
      \<and> 0 \<le> end_hour (valid_request\<lparr>end_hour := 24\<rparr>)
      \<and> end_hour (valid_request\<lparr>end_hour := 24\<rparr>) \<le> 23)
 \<and> (\<exists>names. names \<noteq> []
       \<and> post_predict_traffic ''id'' ''ts'' idle_state (valid_request\<lparr>end_hour := 24\<rparr>)
           = (Inl (RequestValidationError names), idle_state))
 \<and> (\<exists>calls. generator_calls (snd (post_predict_traffic ''id'' ''ts'' idle_state valid_request))
               = generator_calls idle_state @ calls
          \<and> (\<forall>(p, d, h) \<in> set calls. 0 \<le> h \<and> h \<le> 23))"
proof -
  have a: "\<not> (0 \<le> start_hour (valid_request\<lparr>end_hour := 24\<rparr>)
      \<and> start_hour (valid_request\<lparr>end_hour := 24\<rparr>) \<le> 23
      \<and> 0 \<le> end_hour (valid_request\<lparr>end_hour := 24\<rparr>)
      \<and> end_hour (valid_request\<lparr>end_hour := 24\<rparr>) \<le> 23)"
    by (simp add: valid_request_def)
  show ?thesis
    using a
      request_model_bounds_hours [of "valid_request\<lparr>end_hour := 24\<rparr>" "''id''" "''ts''"
        idle_state]
      request_model_bounds_hours [of valid_request "''id''" "''ts''" idle_state]
    by (intro conjI) (blast, blast, fast)
qed

end
